theory Spec2Isabelle
  imports Main "HOL-Library.Word"
begin

section \<open>Data model of the network controller\<close>

text \<open>
  The controller is the class \<open>NetworkSettingsClass\<close> of \<open>src/NetworkSettings.cpp\<close>.
  Its private members become the fields of a record, every member function becomes a
  function from the record to the updated record, and each call the class makes into the
  network stack (\<open>WiFi\<close>, \<open>ETH\<close>, \<open>MDNS\<close>, the captive DNS server) or into a
  subscriber's callback is appended to the field \<open>trace\<close>, in program order. The
  texts printed to \<open>MessageOutput\<close> do not steer the control flow and are left out,
  as are \<open>init\<close> and the accessors (\<open>localIP\<close>, \<open>macAddress\<close> and the like), which no
  property below is about.
\<close>

text \<open>
  Modelled from the spec: the header \<open>NetworkSettings.h\<close>, which declares the two
  enumerations, is not among the sources. The interface mode is one of Undefined, WiFi and
  Ethernet; a lifecycle event is one of Started, Stopped, Connected, Disconnected and
  GotAddress, or the wildcard Max. The enumerators carry the names \<open>NetworkSettings.cpp\<close>
  uses for them.
\<close>

datatype network_mode = WiFi | Ethernet | Undefined

datatype network_event =
    NETWORK_START
  | NETWORK_STOP
  | NETWORK_CONNECTED
  | NETWORK_DISCONNECTED
  | NETWORK_GOT_IP
  | NETWORK_EVENT_MAX

text \<open>
  The raw events of the network stack that \<open>NetworkEvent\<close> tells apart; every other event
  takes the \<open>default\<close> branch.
\<close>

datatype arduino_event =
    ARDUINO_EVENT_ETH_START
  | ARDUINO_EVENT_ETH_STOP
  | ARDUINO_EVENT_ETH_CONNECTED
  | ARDUINO_EVENT_ETH_GOT_IP
  | ARDUINO_EVENT_ETH_DISCONNECTED
  | ARDUINO_EVENT_WIFI_STA_CONNECTED
  | ARDUINO_EVENT_WIFI_STA_DISCONNECTED
  | ARDUINO_EVENT_WIFI_STA_GOT_IP
  | ARDUINO_EVENT_OTHER

text \<open>The modes of the radio; the stack knows three of them under two names.\<close>

datatype wifi_mode_t = WIFI_MODE_NULL | WIFI_MODE_STA | WIFI_MODE_AP | WIFI_MODE_APSTA

abbreviation WIFI_STA :: wifi_mode_t where "WIFI_STA \<equiv> WIFI_MODE_STA"
abbreviation WIFI_AP :: wifi_mode_t where "WIFI_AP \<equiv> WIFI_MODE_AP"
abbreviation WIFI_AP_STA :: wifi_mode_t where "WIFI_AP_STA \<equiv> WIFI_MODE_APSTA"

text \<open>An IPv4 address is four octets; \<open>ip[i]\<close> reads octet \<open>i\<close>.\<close>

datatype IPAddress = IPAddress "8 word" "8 word" "8 word" "8 word"

fun octet :: "IPAddress \<Rightarrow> nat \<Rightarrow> 8 word" where
  "octet (IPAddress a b c d) i =
     (if i = 0 then a else if i = 1 then b else if i = 2 then c else d)"

definition INADDR_NONE :: IPAddress where
  "INADDR_NONE = IPAddress 0 0 0 0"

definition apIp :: IPAddress where
  "apIp = IPAddress 192 168 4 1"

definition apNetmask :: IPAddress where
  "apNetmask = IPAddress 255 255 255 0"

text \<open>
  A subscriber's callback is a \<open>std::function\<close>: empty (\<open>None\<close>) or a callable, which
  the model names by a number. A subscription is the pair of a callback and an event
  filter, with the field names \<open>onEvent\<close> assigns to.
\<close>

type_synonym DtuNetworkEventCb = "nat option"

record DtuNetworkEventCbList_t =
  cb :: DtuNetworkEventCb
  event :: network_event

text \<open>The calls that leave the class.\<close>

datatype call =
    WiFi_mode wifi_mode_t
  | WiFi_softAPConfig IPAddress IPAddress IPAddress
  | WiFi_softAP string string
  | WiFi_hostname string
  | WiFi_begin_credentials string string
  | WiFi_begin
  | WiFi_disconnect bool bool
  | WiFi_config "IPAddress list"
  | ETH_config "IPAddress list"
  | ETH_setHostname string
  | DNS_setErrorReplyCode_NoError
  | DNS_start nat string IPAddress
  | DNS_stop
  | DNS_processNextRequest
  | MDNS_end
  | MDNS_begin string
  | MDNS_addService string string nat
  | MDNS_addServiceTxt string string string string
  | Callback nat network_event

text \<open>
  The members of the object. The two admin counters are printed with \<open>PRIu32\<close>, so
  they are \<open>uint32_t\<close>; the two connect timers and \<open>_lastTimerCall\<close>, which is
  subtracted from \<open>millis()\<close>, are taken to be \<open>uint32_t\<close> as well (the header that
  declares them is not among the sources).
\<close>

record NetworkSettingsClass =
  networkMode :: network_mode
  ethConnected :: bool
  adminEnabled :: bool
  forceDisconnection :: bool
  adminTimeoutCounter :: "32 word"
  adminTimeoutCounterMax :: "32 word"
  connectTimeoutTimer :: "32 word"
  connectRedoTimer :: "32 word"
  lastTimerCall :: "32 word"
  dnsServerStatus :: bool
  lastMdnsEnabled :: bool
  cbEventList :: "DtuNetworkEventCbList_t list"
  trace :: "call list"

definition emits :: "call list \<Rightarrow> NetworkSettingsClass \<Rightarrow> NetworkSettingsClass" where
  "emits cs s = s\<lparr>trace := trace s @ cs\<rparr>"

section \<open>Event bus\<close>

text \<open>\<open>onEvent\<close> returns its boolean result together with the updated object.\<close>

definition onEvent ::
  "DtuNetworkEventCb \<Rightarrow> network_event \<Rightarrow> NetworkSettingsClass \<Rightarrow> bool \<times> NetworkSettingsClass"
where
  "onEvent cbEvent ev s =
     (if cbEvent = None then (False, s)
      else (True, s\<lparr>cbEventList := cbEventList s @ [\<lparr>cb = cbEvent, event = ev\<rparr>]\<rparr>))"

text \<open>The body of the range-for loop of \<open>raiseEvent\<close>, one entry after the other.\<close>

fun raiseEvent_loop ::
  "DtuNetworkEventCbList_t list \<Rightarrow> network_event \<Rightarrow> NetworkSettingsClass \<Rightarrow> NetworkSettingsClass"
where
  "raiseEvent_loop [] ev s = s"
| "raiseEvent_loop (entry # rest) ev s =
     raiseEvent_loop rest ev
       (case cb entry of
          None \<Rightarrow> s
        | Some f \<Rightarrow>
            if event entry = ev \<or> event entry = NETWORK_EVENT_MAX
            then emits [Callback f ev] s
            else s)"

definition raiseEvent :: "network_event \<Rightarrow> NetworkSettingsClass \<Rightarrow> NetworkSettingsClass" where
  "raiseEvent ev s = raiseEvent_loop (cbEventList s) ev s"

section \<open>Connectivity\<close>

text \<open>
  \<open>isConnected\<close> reads \<open>WiFi.localIP()\<close> and \<open>ETH.localIP()\<close>; the two addresses the
  stack reports are its inputs.
\<close>

definition isConnected :: "IPAddress \<Rightarrow> IPAddress \<Rightarrow> bool" where
  "isConnected wifi_localIP eth_localIP =
     (octet wifi_localIP 0 \<noteq> 0 \<or> octet eth_localIP 0 \<noteq> 0)"

section \<open>What the build, the device and the stack supply\<close>

text \<open>
  The headers \<open>defaults.h\<close>, \<open>Configuration.h\<close> and \<open>NetworkSettings.h\<close> fix the
  constants below, \<open>Utils::getChipId()\<close> the chip id, and the C library the expansion of
  a \<open>printf\<close> format with one unsigned argument (\<open>format\<close>). All of them are parameters
  of the model.
\<close>

record platform =
  WIFI_MAX_HOSTNAME_STRLEN :: nat
  WIFI_RECONNECT_TIMEOUT :: "32 word"
  WIFI_RECONNECT_REDO_TIMEOUT :: "32 word"
  APP_HOSTNAME :: string
  ACCESS_POINT_NAME :: string
  DNS_PORT :: nat
  COMPILED_GIT_HASH :: string
  chipId :: "32 word"
  format :: "string \<Rightarrow> 32 word \<Rightarrow> string"

text \<open>
  The configuration snapshot \<open>Configuration.get()\<close>, as far as the class reads it. The
  time-out \<open>ApTimeout\<close> is in minutes and taken to be a \<open>uint32_t\<close>, as the counters are
  that it is multiplied into.
\<close>

record CONFIG_T =
  WiFi_Ssid :: string
  WiFi_Password :: string
  WiFi_Ip :: IPAddress
  WiFi_Gateway :: IPAddress
  WiFi_Netmask :: IPAddress
  WiFi_Dns1 :: IPAddress
  WiFi_Dns2 :: IPAddress
  WiFi_Dhcp :: bool
  WiFi_Hostname :: string
  WiFi_ApTimeout :: "32 word"
  Mdns_Enabled :: bool
  Security_Password :: string

text \<open>
  What one call of \<open>loop\<close> reads from outside: the clock at its two reads (lines 227 and
  236), the local addresses at the two calls of \<open>isConnected\<close> (lines 240 and 253), the
  configuration, the credentials the radio holds, the soft-AP address, the result of
  \<open>MDNS.begin\<close>, and the bytes the stack holds where \<open>getHostname\<close> puts its arrays.
\<close>

record tick_env =
  millis_1 :: "32 word"
  millis_2 :: "32 word"
  WiFi_localIP_1 :: IPAddress
  ETH_localIP_1 :: IPAddress
  WiFi_localIP_2 :: IPAddress
  ETH_localIP_2 :: IPAddress
  config :: CONFIG_T
  WiFi_SSID :: string
  WiFi_psk :: string
  WiFi_softAPIP :: IPAddress
  MDNS_begin_result :: bool
  stack :: string

section \<open>Hostname\<close>

definition NUL :: char where
  "NUL = CHR 0x00"

text \<open>The C string a buffer holds: its characters before the first NUL.\<close>

definition c_str :: "string \<Rightarrow> string" where
  "c_str buf = takeWhile (\<lambda>c. c \<noteq> NUL) buf"

definition strlen :: "string \<Rightarrow> nat" where
  "strlen buf = length (c_str buf)"

text \<open>A local array of \<open>n\<close> characters starts with whatever the stack held there.\<close>

definition char_array :: "nat \<Rightarrow> string \<Rightarrow> string" where
  "char_array n garbage = take n (garbage @ replicate n NUL)"

text \<open>
  \<open>snprintf(buf, n, fmt, arg)\<close>, given the expansion \<open>out\<close> of \<open>fmt\<close> with \<open>arg\<close>:
  at most \<open>n - 1\<close> characters of it and the terminator are written.
\<close>

definition snprintf :: "string \<Rightarrow> nat \<Rightarrow> string \<Rightarrow> string" where
  "snprintf buf n out =
     (let w = take (n - 1) (c_str out) in w @ [NUL] @ drop (length w + 1) buf)"

text \<open>\<open>isalnum\<close> in the C locale.\<close>

definition isalnum :: "char \<Rightarrow> bool" where
  "isalnum c =
     (let n = (of_char c :: nat)
      in (48 \<le> n \<and> n \<le> 57) \<or> (65 \<le> n \<and> n \<le> 90) \<or> (97 \<le> n \<and> n \<le> 122))"

text \<open>
  The first loop of \<open>getHostname\<close>. The pointer \<open>pC\<close> is the rest of
  \<open>preparedHostname\<close> from the place it points to; \<open>pos\<close> is a \<open>uint8_t\<close>. The
  buffer holds a terminator, so the loop ends at it and never at the end of the array
  (the first equation).
\<close>

fun sanitize_loop :: "nat \<Rightarrow> string \<Rightarrow> string \<Rightarrow> 8 word \<Rightarrow> string \<times> 8 word" where
  "sanitize_loop maxlen [] resultHostname pos = (resultHostname, pos)"
| "sanitize_loop maxlen (c # pC) resultHostname pos =
     (if c \<noteq> NUL \<and> unat pos < maxlen then
        (if isalnum c then
           sanitize_loop maxlen pC (resultHostname[unat pos := c]) (pos + 1)
         else if c = CHR '' '' \<or> c = CHR ''_'' \<or> c = CHR ''-'' \<or> c = CHR ''+''
                 \<or> c = CHR ''!'' \<or> c = CHR ''?'' \<or> c = CHR ''*'' then
           sanitize_loop maxlen pC (resultHostname[unat pos := CHR ''-'']) (pos + 1)
         else sanitize_loop maxlen pC resultHostname pos)
      else (resultHostname, pos))"

text \<open>The second loop: the last character must not be a hyphen.\<close>

function strip_loop :: "string \<Rightarrow> 8 word \<Rightarrow> string \<times> 8 word" where
  "strip_loop resultHostname pos =
     (if pos > 0 \<and> resultHostname ! (unat pos - 1) = CHR ''-'' then
        strip_loop (resultHostname[unat pos - 1 := NUL]) (pos - 1)
      else (resultHostname, pos))"
  by pat_completeness auto
termination
  by (relation "measure (\<lambda>(r, pos). unat pos)") (auto simp: unat_minus_one word_greater_zero_iff unat_gt_0)

declare strip_loop.simps [simp del]

definition getHostname :: "platform \<Rightarrow> string \<Rightarrow> CONFIG_T \<Rightarrow> string" where
  "getHostname P garbage cfg =
     (let maxlen = WIFI_MAX_HOSTNAME_STRLEN P;
          preparedHostname =
            snprintf (char_array (maxlen + 1) garbage) (maxlen + 1)
              (format P (WiFi_Hostname cfg) (chipId P));
          (resultHostname, pos) =
            sanitize_loop maxlen preparedHostname (char_array (maxlen + 1) garbage) 0;
          resultHostname = resultHostname[unat pos := NUL];
          (resultHostname, pos) = strip_loop resultHostname pos;
          resultHostname =
            (if strlen resultHostname = 0
             then snprintf resultHostname (maxlen + 1) (format P (APP_HOSTNAME P) (chipId P))
             else resultHostname)
      in c_str resultHostname)"

text \<open>\<open>String(n)\<close> of an unsigned number: its decimal digits.\<close>

fun String_of_nat :: "nat \<Rightarrow> string" where
  "String_of_nat n =
     (if n < 10 then [char_of (48 + n)]
      else String_of_nat (n div 10) @ [char_of (48 + n mod 10)])"

declare String_of_nat.simps [simp del]

definition getApName :: "platform \<Rightarrow> string" where
  "getApName P = ACCESS_POINT_NAME P @ String_of_nat (unat (chipId P))"

section \<open>Mode set-up, hostname and addresses\<close>

definition setupMode :: "platform \<Rightarrow> tick_env \<Rightarrow> NetworkSettingsClass \<Rightarrow> NetworkSettingsClass" where
  "setupMode P env s =
     (if adminEnabled s then
        (emits
           [WiFi_mode WIFI_AP_STA,
            WiFi_softAPConfig apIp apIp apNetmask,
            WiFi_softAP (getApName P) (Security_Password (config env)),
            DNS_setErrorReplyCode_NoError,
            DNS_start (DNS_PORT P) ''*'' (WiFi_softAPIP env)] s)
        \<lparr>dnsServerStatus := True\<rparr>
      else
        emits
          [DNS_stop,
           if networkMode s = WiFi then WiFi_mode WIFI_STA else WiFi_mode WIFI_MODE_NULL]
          (s\<lparr>dnsServerStatus := False\<rparr>))"

definition enableAdminMode :: "platform \<Rightarrow> tick_env \<Rightarrow> NetworkSettingsClass \<Rightarrow> NetworkSettingsClass" where
  "enableAdminMode P env s =
     setupMode P env
       (s\<lparr>adminEnabled := True,
          adminTimeoutCounter := 0,
          adminTimeoutCounterMax := WiFi_ApTimeout (config env) * 60\<rparr>)"

definition setHostname :: "platform \<Rightarrow> tick_env \<Rightarrow> NetworkSettingsClass \<Rightarrow> NetworkSettingsClass" where
  "setHostname P env s =
     (if networkMode s = Undefined then s
      else
        let hostname = getHostname P (stack env) (config env) in
        if networkMode s = WiFi then
          setupMode P env
            (emits [WiFi_hostname hostname, WiFi_mode WIFI_MODE_APSTA, WiFi_mode WIFI_MODE_STA] s)
        else if networkMode s = Ethernet then emits [ETH_setHostname hostname] s
        else s)"

definition setStaticIp :: "tick_env \<Rightarrow> NetworkSettingsClass \<Rightarrow> NetworkSettingsClass" where
  "setStaticIp env s =
     (if networkMode s = Undefined then s
      else
        let cfg = config env;
            static = [WiFi_Ip cfg, WiFi_Gateway cfg, WiFi_Netmask cfg, WiFi_Dns1 cfg, WiFi_Dns2 cfg]
        in
        if networkMode s = WiFi then
          (if WiFi_Dhcp cfg then emits [WiFi_config [INADDR_NONE, INADDR_NONE, INADDR_NONE]] s
           else emits [WiFi_config static] s)
        else if networkMode s = Ethernet then
          (if WiFi_Dhcp cfg
           then emits [ETH_config [INADDR_NONE, INADDR_NONE, INADDR_NONE, INADDR_NONE]] s
           else emits [ETH_config static] s)
        else s)"

definition applyConfig :: "platform \<Rightarrow> tick_env \<Rightarrow> NetworkSettingsClass \<Rightarrow> NetworkSettingsClass" where
  "applyConfig P env s =
     (let s1 = setHostname P env s;
          cfg = config env
      in
      if WiFi_Ssid cfg = [] then s1
      else
        let newCredentials = (WiFi_SSID env \<noteq> WiFi_Ssid cfg \<or> WiFi_psk env \<noteq> WiFi_Password cfg);
            s2 = (if newCredentials
                  then emits [WiFi_begin_credentials (WiFi_Ssid cfg) (WiFi_Password cfg)] s1
                  else emits [WiFi_begin] s1)
        in setStaticIp env s2)"

section \<open>Raw link events\<close>

definition NetworkEvent :: "arduino_event \<Rightarrow> NetworkSettingsClass \<Rightarrow> NetworkSettingsClass" where
  "NetworkEvent ev s =
     (case ev of
        ARDUINO_EVENT_ETH_START \<Rightarrow>
          if networkMode s = Ethernet then raiseEvent NETWORK_START s else s
      | ARDUINO_EVENT_ETH_STOP \<Rightarrow>
          if networkMode s = Ethernet then raiseEvent NETWORK_STOP s else s
      | ARDUINO_EVENT_ETH_CONNECTED \<Rightarrow>
          raiseEvent NETWORK_CONNECTED (s\<lparr>ethConnected := True\<rparr>)
      | ARDUINO_EVENT_ETH_GOT_IP \<Rightarrow>
          if networkMode s = Ethernet then raiseEvent NETWORK_GOT_IP s else s
      | ARDUINO_EVENT_ETH_DISCONNECTED \<Rightarrow>
          (let s1 = s\<lparr>ethConnected := False\<rparr>
           in if networkMode s1 = Ethernet then raiseEvent NETWORK_DISCONNECTED s1 else s1)
      | ARDUINO_EVENT_WIFI_STA_CONNECTED \<Rightarrow>
          if networkMode s = WiFi then raiseEvent NETWORK_CONNECTED s else s
      | ARDUINO_EVENT_WIFI_STA_DISCONNECTED \<Rightarrow>
          if networkMode s = WiFi
          then raiseEvent NETWORK_DISCONNECTED (emits [WiFi_disconnect True False, WiFi_begin] s)
          else s
      | ARDUINO_EVENT_WIFI_STA_GOT_IP \<Rightarrow>
          if networkMode s = WiFi then raiseEvent NETWORK_GOT_IP s else s
      | ARDUINO_EVENT_OTHER \<Rightarrow> s)"

section \<open>The periodic driver\<close>

definition handleMDNS :: "platform \<Rightarrow> tick_env \<Rightarrow> NetworkSettingsClass \<Rightarrow> NetworkSettingsClass" where
  "handleMDNS P env s =
     (let mdnsEnabled = Mdns_Enabled (config env) in
      if lastMdnsEnabled s = mdnsEnabled then s
      else
        let s1 = emits [MDNS_end] (s\<lparr>lastMdnsEnabled := mdnsEnabled\<rparr>) in
        if \<not> mdnsEnabled then s1
        else
          let s2 = emits [MDNS_begin (getHostname P (stack env) (config env))] s1 in
          if \<not> MDNS_begin_result env then s2
          else
            emits
              [MDNS_addService ''http'' ''tcp'' 80,
               MDNS_addService ''opendtu'' ''tcp'' 80,
               MDNS_addServiceTxt ''opendtu'' ''tcp'' ''git_hash'' (COMPILED_GIT_HASH P)] s2)"

text \<open>Lines 210 to 225 of \<open>loop\<close>: the mode arbiter.\<close>

definition loop_mode :: "platform \<Rightarrow> tick_env \<Rightarrow> NetworkSettingsClass \<Rightarrow> NetworkSettingsClass" where
  "loop_mode P env s =
     (if ethConnected s then
        (if networkMode s \<noteq> Ethernet then
           setHostname P env
             (setStaticIp env (emits [WiFi_mode WIFI_MODE_NULL] (s\<lparr>networkMode := Ethernet\<rparr>)))
         else s)
      else if networkMode s \<noteq> WiFi then
        applyConfig P env (enableAdminMode P env (s\<lparr>networkMode := WiFi\<rparr>))
      else s)"

text \<open>Lines 227 to 237: the once-per-second counters.\<close>

definition loop_timer :: "tick_env \<Rightarrow> NetworkSettingsClass \<Rightarrow> NetworkSettingsClass" where
  "loop_timer env s =
     (if millis_1 env - lastTimerCall s > 1000 then
        (let s1 = (if adminEnabled s \<and> adminTimeoutCounterMax s > 0
                   then s\<lparr>adminTimeoutCounter := adminTimeoutCounter s + 1\<rparr>
                   else s)
         in s1\<lparr>connectTimeoutTimer := connectTimeoutTimer s1 + 1,
               connectRedoTimer := connectRedoTimer s1 + 1,
               lastTimerCall := millis_2 env\<rparr>)
      else s)"

text \<open>Lines 238 to 271: admin time-out and the suppression of the station search.\<close>

definition loop_admin :: "platform \<Rightarrow> tick_env \<Rightarrow> NetworkSettingsClass \<Rightarrow> NetworkSettingsClass" where
  "loop_admin P env s =
     (if adminEnabled s then
        let s1 = (if \<not> isConnected (WiFi_localIP_1 env) (ETH_localIP_1 env)
                  then s\<lparr>adminTimeoutCounter := 0\<rparr>
                  else s);
            s2 = (if adminTimeoutCounter s1 > adminTimeoutCounterMax s1
                  then setupMode P env (s1\<lparr>adminEnabled := False\<rparr>)
                  else s1)
        in
        if isConnected (WiFi_localIP_2 env) (ETH_localIP_2 env) then
          s2\<lparr>connectTimeoutTimer := 0, connectRedoTimer := 0\<rparr>
        else
          let s3 = (if connectTimeoutTimer s2 > WIFI_RECONNECT_TIMEOUT P \<and> \<not> forceDisconnection s2
                    then (emits [WiFi_mode WIFI_AP] s2)
                           \<lparr>connectRedoTimer := 0, forceDisconnection := True\<rparr>
                    else s2)
          in
          if connectRedoTimer s3 > WIFI_RECONNECT_REDO_TIMEOUT P \<and> forceDisconnection s3
          then (applyConfig P env (emits [WiFi_mode WIFI_AP_STA] s3))
                 \<lparr>connectTimeoutTimer := 0, forceDisconnection := False\<rparr>
          else s3
      else s)"

text \<open>Lines 272 to 274.\<close>

definition loop_dns :: "NetworkSettingsClass \<Rightarrow> NetworkSettingsClass" where
  "loop_dns s = (if dnsServerStatus s then emits [DNS_processNextRequest] s else s)"

definition loop :: "platform \<Rightarrow> tick_env \<Rightarrow> NetworkSettingsClass \<Rightarrow> NetworkSettingsClass" where
  "loop P env s =
     handleMDNS P env (loop_dns (loop_admin P env (loop_timer env (loop_mode P env s))))"

text \<open>
  The object lives between raw link events, delivered by the stack, and ticks of the
  scheduler, in any order.
\<close>

datatype input = RawEvent arduino_event | Tick tick_env

fun step :: "platform \<Rightarrow> input \<Rightarrow> NetworkSettingsClass \<Rightarrow> NetworkSettingsClass" where
  "step P (RawEvent ev) s = NetworkEvent ev s"
| "step P (Tick env) s = loop P env s"

fun run :: "platform \<Rightarrow> input list \<Rightarrow> NetworkSettingsClass \<Rightarrow> NetworkSettingsClass" where
  "run P [] s = s"
| "run P (i # inputs) s = run P inputs (step P i s)"

section \<open>Observations on a run\<close>

text \<open>The calls a run has added to the trace, between a state and a later state.\<close>

definition calls_since :: "NetworkSettingsClass \<Rightarrow> NetworkSettingsClass \<Rightarrow> call list" where
  "calls_since s s' = drop (length (trace s)) (trace s')"

text \<open>The events a callback has been invoked with, in order.\<close>

definition received :: "nat \<Rightarrow> call list \<Rightarrow> network_event list" where
  "received f cs =
     concat (map (\<lambda>c. case c of Callback g ev \<Rightarrow> if g = f then [ev] else [] | _ \<Rightarrow> []) cs)"

text \<open>
  A subscription is served for an event when its callback is not empty and its filter is
  the event or the wildcard; \<open>invocations\<close> lists the callback invocations for the served
  subscriptions, in subscription order.
\<close>

definition matches :: "network_event \<Rightarrow> DtuNetworkEventCbList_t \<Rightarrow> bool" where
  "matches ev entry \<longleftrightarrow>
     cb entry \<noteq> None \<and> (event entry = ev \<or> event entry = NETWORK_EVENT_MAX)"

definition invocations :: "network_event \<Rightarrow> DtuNetworkEventCbList_t list \<Rightarrow> call list" where
  "invocations ev entries =
     map (\<lambda>entry. Callback (the (cb entry)) ev) (filter (matches ev) entries)"

text \<open>Publishing a sequence of events, one \<open>raiseEvent\<close> after the other.\<close>

fun raiseEvents :: "network_event list \<Rightarrow> NetworkSettingsClass \<Rightarrow> NetworkSettingsClass" where
  "raiseEvents [] s = s"
| "raiseEvents (ev # evs) s = raiseEvents evs (raiseEvent ev s)"

definition is_station_connect :: "call \<Rightarrow> bool" where
  "is_station_connect c =
     (case c of WiFi_begin \<Rightarrow> True | WiFi_begin_credentials _ _ \<Rightarrow> True | _ \<Rightarrow> False)"

definition is_address_config :: "call \<Rightarrow> bool" where
  "is_address_config c = (case c of WiFi_config _ \<Rightarrow> True | ETH_config _ \<Rightarrow> True | _ \<Rightarrow> False)"

text \<open>
  A tick is offline when both calls of \<open>isConnected\<close> in it return false, and online
  when both return true.
\<close>

definition offline :: "tick_env \<Rightarrow> bool" where
  "offline env \<longleftrightarrow>
     \<not> isConnected (WiFi_localIP_1 env) (ETH_localIP_1 env)
     \<and> \<not> isConnected (WiFi_localIP_2 env) (ETH_localIP_2 env)"

definition online :: "tick_env \<Rightarrow> bool" where
  "online env \<longleftrightarrow>
     isConnected (WiFi_localIP_1 env) (ETH_localIP_1 env)
     \<and> isConnected (WiFi_localIP_2 env) (ETH_localIP_2 env)"

text \<open>
  The mode is settled when it agrees with the wired link flag: the arbiter at the head of
  \<open>loop\<close> then has nothing to do.
\<close>

definition settled :: "NetworkSettingsClass \<Rightarrow> bool" where
  "settled s \<longleftrightarrow> networkMode s = (if ethConnected s then Ethernet else WiFi)"

text \<open>
  The once-per-second block of \<open>loop\<close> runs in a tick when the clock is more than
  1000 ms past \<open>_lastTimerCall\<close>; \<open>elapsed_seconds\<close> counts these ticks over a run of
  ticks without raw events in between (\<open>ticks\<close>).
\<close>

definition timer_due :: "tick_env \<Rightarrow> NetworkSettingsClass \<Rightarrow> bool" where
  "timer_due env s \<longleftrightarrow> millis_1 env - lastTimerCall s > 1000"

definition ticks :: "platform \<Rightarrow> tick_env list \<Rightarrow> NetworkSettingsClass \<Rightarrow> NetworkSettingsClass" where
  "ticks P envs s = run P (map Tick envs) s"

fun elapsed_seconds :: "platform \<Rightarrow> tick_env list \<Rightarrow> NetworkSettingsClass \<Rightarrow> nat" where
  "elapsed_seconds P [] s = 0"
| "elapsed_seconds P (env # envs) s =
     (if timer_due env s then 1 else 0) + elapsed_seconds P envs (loop P env s)"

text \<open>The mode of the radio after a trace: the argument of the last \<open>WiFi.mode\<close> call.\<close>

fun radio_mode :: "call list \<Rightarrow> wifi_mode_t option" where
  "radio_mode [] = None"
| "radio_mode (c # cs) =
     (case radio_mode cs of
        Some m \<Rightarrow> Some m
      | None \<Rightarrow> (case c of WiFi_mode m \<Rightarrow> Some m | _ \<Rightarrow> None))"

text \<open>
  \<open>applyConfig\<close> on the WiFi interface calls \<open>WiFi.hostname\<close> once, and with a
  configured SSID \<open>WiFi.begin\<close> and \<open>WiFi.config\<close> once each. Their numbers in a trace
  count the applications of the station configuration.
\<close>

definition is_WiFi_hostname :: "call \<Rightarrow> bool" where
  "is_WiFi_hostname c = (case c of WiFi_hostname _ \<Rightarrow> True | _ \<Rightarrow> False)"

definition hostname_applications :: "call list \<Rightarrow> nat" where
  "hostname_applications cs = length (filter is_WiFi_hostname cs)"

definition station_connects :: "call list \<Rightarrow> nat" where
  "station_connects cs = length (filter is_station_connect cs)"

definition address_configs :: "call list \<Rightarrow> nat" where
  "address_configs cs = length (filter is_address_config cs)"

text \<open>
  While the search for an access point may go on, WiFi is authoritative and the device is
  disconnected: the ticks are offline, and any raw event may arrive but the wired link
  coming up, which would hand the authority to Ethernet.
\<close>

definition searching :: "input \<Rightarrow> bool" where
  "searching i =
     (case i of Tick env \<Rightarrow> offline env | RawEvent ev \<Rightarrow> ev \<noteq> ARDUINO_EVENT_ETH_CONNECTED)"

text \<open>The seconds counted by the ticks of a run of raw events and ticks.\<close>

fun counted_seconds :: "platform \<Rightarrow> input list \<Rightarrow> NetworkSettingsClass \<Rightarrow> nat" where
  "counted_seconds P [] s = 0"
| "counted_seconds P (RawEvent ev # inputs) s = counted_seconds P inputs (NetworkEvent ev s)"
| "counted_seconds P (Tick env # inputs) s =
     (if timer_due env s then 1 else 0) + counted_seconds P inputs (loop P env s)"

text \<open>
  The handler of the raw event \<open>WIFI_STA_DISCONNECTED\<close> calls \<open>WiFi.begin\<close> itself; these
  events are counted apart.
\<close>

definition station_losses :: "input list \<Rightarrow> nat" where
  "station_losses inputs =
     length (filter (\<lambda>i. i = RawEvent ARDUINO_EVENT_WIFI_STA_DISCONNECTED) inputs)"

text \<open>
  The search for an access point is given up when \<open>_connectTimeoutTimer\<close> exceeds
  \<open>WIFI_RECONNECT_TIMEOUT\<close> and taken up again when \<open>_connectRedoTimer\<close> then exceeds
  \<open>WIFI_RECONNECT_REDO_TIMEOUT\<close>: a cycle lasts this many counted seconds.
\<close>

definition backoff_period :: "platform \<Rightarrow> nat" where
  "backoff_period P =
     unat (WIFI_RECONNECT_TIMEOUT P) + unat (WIFI_RECONNECT_REDO_TIMEOUT P) + 2"

text \<open>The object, \<open>c\<close> counted seconds into a cycle.\<close>

definition search_phase :: "platform \<Rightarrow> nat \<Rightarrow> NetworkSettingsClass \<Rightarrow> bool" where
  "search_phase P c s \<longleftrightarrow>
     adminEnabled s \<and> networkMode s = WiFi \<and> \<not> ethConnected s
     \<and> c < backoff_period P
     \<and> unat (connectTimeoutTimer s) = c
     \<and> (forceDisconnection s \<longleftrightarrow> unat (WIFI_RECONNECT_TIMEOUT P) < c)
     \<and> (unat (WIFI_RECONNECT_TIMEOUT P) < c
          \<longrightarrow> unat (connectRedoTimer s) = c - Suc (unat (WIFI_RECONNECT_TIMEOUT P)))
     \<and> (unat (WIFI_RECONNECT_TIMEOUT P) < c \<longrightarrow> radio_mode (trace s) = Some WIFI_AP)"

section \<open>The hostname rule in the words of the specification\<close>

text \<open>
  The specification's rule, written as list functions for comparison with the loops of
  \<open>getHostname\<close>: keep alphanumeric characters, map each of space, underscore, hyphen,
  plus, exclamation mark, question mark and asterisk to a hyphen, drop all other
  characters; strip trailing hyphens; if the result is empty, fall back to the default.
\<close>

definition hyphenated :: "char \<Rightarrow> bool" where
  "hyphenated c \<longleftrightarrow>
     c = CHR '' '' \<or> c = CHR ''_'' \<or> c = CHR ''-'' \<or> c = CHR ''+''
     \<or> c = CHR ''!'' \<or> c = CHR ''?'' \<or> c = CHR ''*''"

definition spec_keep_or_hyphen :: "string \<Rightarrow> string" where
  "spec_keep_or_hyphen str =
     concat (map (\<lambda>c. if isalnum c then [c] else if hyphenated c then [CHR ''-''] else []) str)"

definition spec_strip_trailing :: "string \<Rightarrow> string" where
  "spec_strip_trailing str = rev (dropWhile (\<lambda>c. c = CHR ''-'') (rev str))"

definition spec_sanitize :: "string \<Rightarrow> string" where
  "spec_sanitize str = spec_strip_trailing (spec_keep_or_hyphen str)"

definition spec_hostname :: "string \<Rightarrow> string \<Rightarrow> string" where
  "spec_hostname substituted fallback =
     (if spec_sanitize substituted = [] then fallback else spec_sanitize substituted)"

text \<open>
  The template-substituted hostname the rule is applied to: the string \<open>snprintf\<close>
  leaves in a buffer of \<open>WIFI_MAX_HOSTNAME_STRLEN + 1\<close> characters, which is the
  expansion of the format cut to \<open>WIFI_MAX_HOSTNAME_STRLEN\<close> characters.
\<close>

definition substituted :: "platform \<Rightarrow> string \<Rightarrow> string" where
  "substituted P fmt = take (WIFI_MAX_HOSTNAME_STRLEN P) (c_str (format P fmt (chipId P)))"

text \<open>Only alphanumeric characters and hyphens, and no hyphen at the end.\<close>

definition hostname_shape :: "string \<Rightarrow> bool" where
  "hostname_shape h \<longleftrightarrow>
     (\<forall>c \<in> set h. isalnum c \<or> c = CHR ''-'') \<and> (h \<noteq> [] \<longrightarrow> last h \<noteq> CHR ''-'')"

section \<open>A sample device\<close>

text \<open>
  Concrete values on which the theorems below are instantiated: a build with a host name
  limit of 31 characters, a formatter for templates without conversion specifications,
  and an object with all counters at zero.
\<close>

definition sample_platform :: platform where
  "sample_platform =
     \<lparr>WIFI_MAX_HOSTNAME_STRLEN = 31,
      WIFI_RECONNECT_TIMEOUT = 2,
      WIFI_RECONNECT_REDO_TIMEOUT = 1,
      APP_HOSTNAME = ''OpenDTU'',
      ACCESS_POINT_NAME = ''OpenDTU-'',
      DNS_PORT = 53,
      COMPILED_GIT_HASH = ''0000000'',
      chipId = 0x123456,
      format = (\<lambda>fmt arg. fmt)\<rparr>"

definition sample_config :: CONFIG_T where
  "sample_config =
     \<lparr>WiFi_Ssid = ''home'',
      WiFi_Password = ''secret'',
      WiFi_Ip = IPAddress 192 168 1 50,
      WiFi_Gateway = IPAddress 192 168 1 1,
      WiFi_Netmask = IPAddress 255 255 255 0,
      WiFi_Dns1 = IPAddress 192 168 1 1,
      WiFi_Dns2 = IPAddress 0 0 0 0,
      WiFi_Dhcp = True,
      WiFi_Hostname = ''My Router!!'',
      WiFi_ApTimeout = 1,
      Mdns_Enabled = False,
      Security_Password = ''openDTU42''\<rparr>"

text \<open>A tick at clock value \<open>t\<close>, with the given local addresses at both reads.\<close>

definition sample_env :: "32 word \<Rightarrow> IPAddress \<Rightarrow> IPAddress \<Rightarrow> CONFIG_T \<Rightarrow> tick_env" where
  "sample_env t wifi_ip eth_ip cfg =
     \<lparr>millis_1 = t,
      millis_2 = t,
      WiFi_localIP_1 = wifi_ip,
      ETH_localIP_1 = eth_ip,
      WiFi_localIP_2 = wifi_ip,
      ETH_localIP_2 = eth_ip,
      config = cfg,
      WiFi_SSID = ''home'',
      WiFi_psk = ''secret'',
      WiFi_softAPIP = IPAddress 192 168 4 1,
      MDNS_begin_result = True,
      stack = []\<rparr>"

definition sample_state :: NetworkSettingsClass where
  "sample_state =
     \<lparr>networkMode = Undefined,
      ethConnected = False,
      adminEnabled = True,
      forceDisconnection = False,
      adminTimeoutCounter = 0,
      adminTimeoutCounterMax = 0,
      connectTimeoutTimer = 0,
      connectRedoTimer = 0,
      lastTimerCall = 0,
      dnsServerStatus = False,
      lastMdnsEnabled = False,
      cbEventList = [],
      trace = []\<rparr>"

text \<open>Ticks 1001 ms apart, so that each of them counts a second.\<close>

definition second_ticks :: "IPAddress \<Rightarrow> nat \<Rightarrow> tick_env list" where
  "second_ticks wifi_ip n =
     map (\<lambda>k. sample_env (of_nat (1001 * k)) wifi_ip INADDR_NONE sample_config) [1..<Suc n]"

definition online_ticks :: "nat \<Rightarrow> tick_env list" where
  "online_ticks n = second_ticks (IPAddress 192 168 1 50) n"

definition offline_ticks :: "nat \<Rightarrow> tick_env list" where
  "offline_ticks n = second_ticks INADDR_NONE n"

text \<open>A WiFi object right after \<open>enableAdminMode\<close>, the time-out configured to 1 minute.\<close>

definition armed_state :: NetworkSettingsClass where
  "armed_state =
     enableAdminMode sample_platform (sample_env 0 (IPAddress 192 168 1 50) INADDR_NONE sample_config)
       (sample_state\<lparr>networkMode := WiFi\<rparr>)"

text \<open>
  A history, from the armed WiFi object, that leaves \<open>_forceDisconnection\<close> set when the
  device loses its connection: three offline seconds on WiFi, after which the search is
  suppressed; then the wired link comes up and Ethernet has an address for a tick; then
  the wired link goes down. The four offline ticks that follow are the first four seconds
  without a connection.
\<close>

definition wired_history :: "input list" where
  "wired_history =
     map Tick (offline_ticks 3)
     @ [RawEvent ARDUINO_EVENT_ETH_CONNECTED,
        Tick (sample_env 4004 INADDR_NONE (IPAddress 192 168 1 51) sample_config),
        RawEvent ARDUINO_EVENT_ETH_DISCONNECTED]"

definition link_lost_state :: NetworkSettingsClass where
  "link_lost_state = run sample_platform wired_history armed_state"

definition offline_seconds_5_to_8 :: "tick_env list" where
  "offline_seconds_5_to_8 =
     [sample_env 5005 INADDR_NONE INADDR_NONE sample_config,
      sample_env 6006 INADDR_NONE INADDR_NONE sample_config,
      sample_env 7007 INADDR_NONE INADDR_NONE sample_config,
      sample_env 8008 INADDR_NONE INADDR_NONE sample_config]"

text \<open>The object after the first \<open>k\<close> of these ticks.\<close>

definition seconds_offline :: "nat \<Rightarrow> NetworkSettingsClass" where
  "seconds_offline k = ticks sample_platform (take k offline_seconds_5_to_8) link_lost_state"

text \<open>A build whose default hostname holds an underscore and ends with a hyphen.\<close>

definition underscore_platform :: platform where
  "underscore_platform = sample_platform\<lparr>APP_HOSTNAME := ''my_dtu-''\<rparr>"

section \<open>Frame lemmas\<close>

lemma emits_fields [simp]:
  "networkMode (emits cs s) = networkMode s"
  "ethConnected (emits cs s) = ethConnected s"
  "adminEnabled (emits cs s) = adminEnabled s"
  "forceDisconnection (emits cs s) = forceDisconnection s"
  "adminTimeoutCounter (emits cs s) = adminTimeoutCounter s"
  "adminTimeoutCounterMax (emits cs s) = adminTimeoutCounterMax s"
  "connectTimeoutTimer (emits cs s) = connectTimeoutTimer s"
  "connectRedoTimer (emits cs s) = connectRedoTimer s"
  "lastTimerCall (emits cs s) = lastTimerCall s"
  "dnsServerStatus (emits cs s) = dnsServerStatus s"
  "lastMdnsEnabled (emits cs s) = lastMdnsEnabled s"
  "cbEventList (emits cs s) = cbEventList s"
  "trace (emits cs s) = trace s @ cs"
  by (simp_all add: emits_def)

lemma emits_emits: "emits cs (emits ds s) = emits (ds @ cs) s"
  by (simp add: emits_def)

lemma emits_Nil [simp]: "emits [] s = s"
  by (simp add: emits_def)

lemma setupMode_fields [simp]:
  "networkMode (setupMode P env s) = networkMode s"
  "ethConnected (setupMode P env s) = ethConnected s"
  "adminEnabled (setupMode P env s) = adminEnabled s"
  "forceDisconnection (setupMode P env s) = forceDisconnection s"
  "adminTimeoutCounter (setupMode P env s) = adminTimeoutCounter s"
  "adminTimeoutCounterMax (setupMode P env s) = adminTimeoutCounterMax s"
  "connectTimeoutTimer (setupMode P env s) = connectTimeoutTimer s"
  "connectRedoTimer (setupMode P env s) = connectRedoTimer s"
  "lastTimerCall (setupMode P env s) = lastTimerCall s"
  "lastMdnsEnabled (setupMode P env s) = lastMdnsEnabled s"
  "cbEventList (setupMode P env s) = cbEventList s"
  "dnsServerStatus (setupMode P env s) = adminEnabled s"
  by (simp_all add: setupMode_def)

lemma setStaticIp_fields [simp]:
  "networkMode (setStaticIp env s) = networkMode s"
  "ethConnected (setStaticIp env s) = ethConnected s"
  "adminEnabled (setStaticIp env s) = adminEnabled s"
  "forceDisconnection (setStaticIp env s) = forceDisconnection s"
  "adminTimeoutCounter (setStaticIp env s) = adminTimeoutCounter s"
  "adminTimeoutCounterMax (setStaticIp env s) = adminTimeoutCounterMax s"
  "connectTimeoutTimer (setStaticIp env s) = connectTimeoutTimer s"
  "connectRedoTimer (setStaticIp env s) = connectRedoTimer s"
  "lastTimerCall (setStaticIp env s) = lastTimerCall s"
  "lastMdnsEnabled (setStaticIp env s) = lastMdnsEnabled s"
  "cbEventList (setStaticIp env s) = cbEventList s"
  "dnsServerStatus (setStaticIp env s) = dnsServerStatus s"
  by (simp_all add: setStaticIp_def Let_def)

lemma setHostname_fields [simp]:
  "networkMode (setHostname P env s) = networkMode s"
  "ethConnected (setHostname P env s) = ethConnected s"
  "adminEnabled (setHostname P env s) = adminEnabled s"
  "forceDisconnection (setHostname P env s) = forceDisconnection s"
  "adminTimeoutCounter (setHostname P env s) = adminTimeoutCounter s"
  "adminTimeoutCounterMax (setHostname P env s) = adminTimeoutCounterMax s"
  "connectTimeoutTimer (setHostname P env s) = connectTimeoutTimer s"
  "connectRedoTimer (setHostname P env s) = connectRedoTimer s"
  "lastTimerCall (setHostname P env s) = lastTimerCall s"
  "lastMdnsEnabled (setHostname P env s) = lastMdnsEnabled s"
  "cbEventList (setHostname P env s) = cbEventList s"
  by (simp_all add: setHostname_def Let_def)

lemma applyConfig_fields [simp]:
  "networkMode (applyConfig P env s) = networkMode s"
  "ethConnected (applyConfig P env s) = ethConnected s"
  "adminEnabled (applyConfig P env s) = adminEnabled s"
  "forceDisconnection (applyConfig P env s) = forceDisconnection s"
  "adminTimeoutCounter (applyConfig P env s) = adminTimeoutCounter s"
  "adminTimeoutCounterMax (applyConfig P env s) = adminTimeoutCounterMax s"
  "connectTimeoutTimer (applyConfig P env s) = connectTimeoutTimer s"
  "connectRedoTimer (applyConfig P env s) = connectRedoTimer s"
  "lastTimerCall (applyConfig P env s) = lastTimerCall s"
  "lastMdnsEnabled (applyConfig P env s) = lastMdnsEnabled s"
  "cbEventList (applyConfig P env s) = cbEventList s"
  by (simp_all add: applyConfig_def Let_def)

lemma enableAdminMode_fields [simp]:
  "networkMode (enableAdminMode P env s) = networkMode s"
  "ethConnected (enableAdminMode P env s) = ethConnected s"
  "adminEnabled (enableAdminMode P env s) = True"
  "forceDisconnection (enableAdminMode P env s) = forceDisconnection s"
  "adminTimeoutCounter (enableAdminMode P env s) = 0"
  "adminTimeoutCounterMax (enableAdminMode P env s) = WiFi_ApTimeout (config env) * 60"
  "connectTimeoutTimer (enableAdminMode P env s) = connectTimeoutTimer s"
  "connectRedoTimer (enableAdminMode P env s) = connectRedoTimer s"
  "lastTimerCall (enableAdminMode P env s) = lastTimerCall s"
  "lastMdnsEnabled (enableAdminMode P env s) = lastMdnsEnabled s"
  "cbEventList (enableAdminMode P env s) = cbEventList s"
  by (simp_all add: enableAdminMode_def)

lemma handleMDNS_fields [simp]:
  "networkMode (handleMDNS P env s) = networkMode s"
  "ethConnected (handleMDNS P env s) = ethConnected s"
  "adminEnabled (handleMDNS P env s) = adminEnabled s"
  "forceDisconnection (handleMDNS P env s) = forceDisconnection s"
  "adminTimeoutCounter (handleMDNS P env s) = adminTimeoutCounter s"
  "adminTimeoutCounterMax (handleMDNS P env s) = adminTimeoutCounterMax s"
  "connectTimeoutTimer (handleMDNS P env s) = connectTimeoutTimer s"
  "connectRedoTimer (handleMDNS P env s) = connectRedoTimer s"
  "lastTimerCall (handleMDNS P env s) = lastTimerCall s"
  "dnsServerStatus (handleMDNS P env s) = dnsServerStatus s"
  "cbEventList (handleMDNS P env s) = cbEventList s"
  by (simp_all add: handleMDNS_def Let_def)

lemma loop_dns_fields [simp]:
  "networkMode (loop_dns s) = networkMode s"
  "ethConnected (loop_dns s) = ethConnected s"
  "adminEnabled (loop_dns s) = adminEnabled s"
  "forceDisconnection (loop_dns s) = forceDisconnection s"
  "adminTimeoutCounter (loop_dns s) = adminTimeoutCounter s"
  "adminTimeoutCounterMax (loop_dns s) = adminTimeoutCounterMax s"
  "connectTimeoutTimer (loop_dns s) = connectTimeoutTimer s"
  "connectRedoTimer (loop_dns s) = connectRedoTimer s"
  "lastTimerCall (loop_dns s) = lastTimerCall s"
  "dnsServerStatus (loop_dns s) = dnsServerStatus s"
  "lastMdnsEnabled (loop_dns s) = lastMdnsEnabled s"
  "cbEventList (loop_dns s) = cbEventList s"
  by (simp_all add: loop_dns_def)

lemma loop_timer_fields [simp]:
  "networkMode (loop_timer env s) = networkMode s"
  "ethConnected (loop_timer env s) = ethConnected s"
  "adminEnabled (loop_timer env s) = adminEnabled s"
  "forceDisconnection (loop_timer env s) = forceDisconnection s"
  "adminTimeoutCounterMax (loop_timer env s) = adminTimeoutCounterMax s"
  "dnsServerStatus (loop_timer env s) = dnsServerStatus s"
  "lastMdnsEnabled (loop_timer env s) = lastMdnsEnabled s"
  "cbEventList (loop_timer env s) = cbEventList s"
  "trace (loop_timer env s) = trace s"
  by (simp_all add: loop_timer_def Let_def)

lemma loop_admin_fields [simp]:
  "networkMode (loop_admin P env s) = networkMode s"
  "ethConnected (loop_admin P env s) = ethConnected s"
  "adminTimeoutCounterMax (loop_admin P env s) = adminTimeoutCounterMax s"
  "lastTimerCall (loop_admin P env s) = lastTimerCall s"
  "lastMdnsEnabled (loop_admin P env s) = lastMdnsEnabled s"
  "cbEventList (loop_admin P env s) = cbEventList s"
  by (simp_all add: loop_admin_def Let_def)

lemma loop_mode_fields [simp]:
  "ethConnected (loop_mode P env s) = ethConnected s"
  "forceDisconnection (loop_mode P env s) = forceDisconnection s"
  "connectTimeoutTimer (loop_mode P env s) = connectTimeoutTimer s"
  "connectRedoTimer (loop_mode P env s) = connectRedoTimer s"
  "lastTimerCall (loop_mode P env s) = lastTimerCall s"
  "lastMdnsEnabled (loop_mode P env s) = lastMdnsEnabled s"
  "cbEventList (loop_mode P env s) = cbEventList s"
  by (simp_all add: loop_mode_def)

section \<open>Event bus\<close>

lemma raiseEvent_loop_eq:
  "raiseEvent_loop entries ev s = emits (invocations ev entries) s"
proof (induction entries arbitrary: s)
  case Nil
  show ?case by (simp add: invocations_def)
next
  case (Cons entry rest)
  show ?case
    by (cases "cb entry") (auto simp: Cons.IH invocations_def matches_def emits_emits)
qed

lemma raiseEvent_eq: "raiseEvent ev s = emits (invocations ev (cbEventList s)) s"
  by (simp add: raiseEvent_def raiseEvent_loop_eq)

lemma raiseEvents_eq:
  "raiseEvents evs s = emits (concat (map (\<lambda>ev. invocations ev (cbEventList s)) evs)) s"
  by (induction evs arbitrary: s) (simp_all add: raiseEvent_eq emits_emits)

lemma calls_since_raiseEvents:
  "calls_since s (raiseEvents evs s) = concat (map (\<lambda>ev. invocations ev (cbEventList s)) evs)"
  by (simp add: calls_since_def raiseEvents_eq)

lemma received_Nil [simp]: "received f [] = []"
  by (simp add: received_def)

lemma received_append [simp]: "received f (xs @ ys) = received f xs @ received f ys"
  by (simp add: received_def)

lemma received_invocations_once:
  assumes "length (filter (\<lambda>e. cb e = Some f) entries) = 1"
    and "\<forall>e \<in> set entries. cb e = Some f \<longrightarrow> event e = NETWORK_EVENT_MAX"
  shows "received f (invocations ev entries) = [ev]"
  using assms
proof (induction entries)
  case Nil
  then show ?case by simp
next
  case (Cons e es)
  show ?case
  proof (cases "cb e = Some f")
    case True
    with Cons.prems have none: "filter (\<lambda>e. cb e = Some f) es = []" by simp
    have "received f (invocations ev es) = []"
      using none
      by (induction es) (auto simp: invocations_def received_def matches_def split: if_splits)
    with True Cons.prems show ?thesis
      by (simp add: invocations_def received_def matches_def)
  next
    case False
    with Cons show ?thesis
      by (auto simp: invocations_def received_def matches_def)
  qed
qed

lemma Callback_in_invocations:
  "Callback f ev' \<in> set (invocations ev entries)
   \<longleftrightarrow> ev' = ev \<and> (\<exists>e \<in> set entries. cb e = Some f \<and> (event e = ev \<or> event e = NETWORK_EVENT_MAX))"
  by (force simp: invocations_def matches_def image_iff)

lemma onEvent_keeps_callbacks:
  "(\<forall>e \<in> set (cbEventList s). cb e \<noteq> None)
   \<Longrightarrow> \<forall>e \<in> set (cbEventList (snd (onEvent c ev s))). cb e \<noteq> None"
  by (auto simp: onEvent_def)

text \<open>
  C7: \<open>raiseEvent\<close> invokes, in subscription order, exactly the subscriptions whose
  filter is the event or the wildcard (\<open>onEvent\<close> never stores an empty callback, and
  an empty callback would be skipped). Hence, over any sequence of published events, a
  callback whose subscriptions are all filtered to \<open>NETWORK_CONNECTED\<close> is never invoked
  with another event, and a callback subscribed once, with the wildcard, receives the
  published events in publish order.
\<close>

theorem raiseEvent_invokes_matching:
  "raiseEvent ev s = emits (invocations ev (cbEventList s)) s
   \<and> ((\<forall>e \<in> set (cbEventList s). cb e \<noteq> None)
        \<longrightarrow> (\<forall>e \<in> set (cbEventList (snd (onEvent c ev0 s))). cb e \<noteq> None))
   \<and> ((\<forall>e \<in> set (cbEventList s). cb e = Some f \<longrightarrow> event e = NETWORK_CONNECTED)
        \<longrightarrow> ev' \<noteq> NETWORK_CONNECTED
        \<longrightarrow> Callback f ev' \<notin> set (calls_since s (raiseEvents evs s)))
   \<and> (length (filter (\<lambda>e. cb e = Some f) (cbEventList s)) = 1
        \<and> (\<forall>e \<in> set (cbEventList s). cb e = Some f \<longrightarrow> event e = NETWORK_EVENT_MAX)
        \<longrightarrow> received f (calls_since s (raiseEvents evs s)) = evs)"
proof (intro conjI impI)
  show "raiseEvent ev s = emits (invocations ev (cbEventList s)) s"
    by (rule raiseEvent_eq)
next
  assume "\<forall>e \<in> set (cbEventList s). cb e \<noteq> None"
  then show "\<forall>e \<in> set (cbEventList (snd (onEvent c ev0 s))). cb e \<noteq> None"
    by (rule onEvent_keeps_callbacks)
next
  assume "\<forall>e \<in> set (cbEventList s). cb e = Some f \<longrightarrow> event e = NETWORK_CONNECTED"
    and "ev' \<noteq> NETWORK_CONNECTED"
  then show "Callback f ev' \<notin> set (calls_since s (raiseEvents evs s))"
    by (auto simp: calls_since_raiseEvents Callback_in_invocations)
next
  assume a: "length (filter (\<lambda>e. cb e = Some f) (cbEventList s)) = 1
        \<and> (\<forall>e \<in> set (cbEventList s). cb e = Some f \<longrightarrow> event e = NETWORK_EVENT_MAX)"
  have "received f (concat (map (\<lambda>ev. invocations ev (cbEventList s)) evs)) = evs"
    by (induction evs) (use a in \<open>simp_all add: received_invocations_once\<close>)
  then show "received f (calls_since s (raiseEvents evs s)) = evs"
    by (simp add: calls_since_raiseEvents)
qed

theorem raiseEvent_invokes_matching_witness:
  "(let s = snd (onEvent (Some 2) NETWORK_EVENT_MAX
                  (snd (onEvent (Some 1) NETWORK_CONNECTED sample_state)));
        evs = [NETWORK_CONNECTED, NETWORK_DISCONNECTED, NETWORK_GOT_IP]
    in raiseEvent NETWORK_CONNECTED s
         = emits [Callback 1 NETWORK_CONNECTED, Callback 2 NETWORK_CONNECTED] s
       \<and> Callback 1 NETWORK_DISCONNECTED \<notin> set (calls_since s (raiseEvents evs s))
       \<and> Callback 1 NETWORK_GOT_IP \<notin> set (calls_since s (raiseEvents evs s))
       \<and> received 2 (calls_since s (raiseEvents evs s)) = evs
       \<and> received 1 (calls_since s (raiseEvents evs s)) = [NETWORK_CONNECTED])"
proof -
  define s where "s = snd (onEvent (Some 2) NETWORK_EVENT_MAX
                  (snd (onEvent (Some 1) NETWORK_CONNECTED sample_state)))"
  define evs where "evs = [NETWORK_CONNECTED, NETWORK_DISCONNECTED, NETWORK_GOT_IP]"
  have subs: "cbEventList s
      = [\<lparr>cb = Some 1, event = NETWORK_CONNECTED\<rparr>, \<lparr>cb = Some 2, event = NETWORK_EVENT_MAX\<rparr>]"
    by (simp add: s_def onEvent_def sample_state_def)
  have a: "raiseEvent NETWORK_CONNECTED s
         = emits [Callback 1 NETWORK_CONNECTED, Callback 2 NETWORK_CONNECTED] s"
    using raiseEvent_invokes_matching [of NETWORK_CONNECTED s]
    by (simp add: subs invocations_def matches_def)
  have b: "Callback 1 NETWORK_DISCONNECTED \<notin> set (calls_since s (raiseEvents evs s))"
    using raiseEvent_invokes_matching [of NETWORK_CONNECTED s undefined undefined 1 NETWORK_DISCONNECTED evs]
    by (simp add: subs)
  have c: "Callback 1 NETWORK_GOT_IP \<notin> set (calls_since s (raiseEvents evs s))"
    using raiseEvent_invokes_matching [of NETWORK_CONNECTED s undefined undefined 1 NETWORK_GOT_IP evs]
    by (simp add: subs)
  have d: "received 2 (calls_since s (raiseEvents evs s)) = evs"
    using raiseEvent_invokes_matching [of NETWORK_CONNECTED s undefined undefined 2 NETWORK_GOT_IP evs]
    by (simp add: subs)
  have e: "received 1 (calls_since s (raiseEvents evs s)) = [NETWORK_CONNECTED]"
    unfolding calls_since_raiseEvents
    by (simp add: subs evs_def invocations_def matches_def received_def)
  from a b c d e show ?thesis
    by (simp add: s_def evs_def Let_def)
qed

lemma raiseEvent_fields [simp]:
  "networkMode (raiseEvent ev s) = networkMode s"
  "ethConnected (raiseEvent ev s) = ethConnected s"
  "adminEnabled (raiseEvent ev s) = adminEnabled s"
  "forceDisconnection (raiseEvent ev s) = forceDisconnection s"
  "adminTimeoutCounter (raiseEvent ev s) = adminTimeoutCounter s"
  "adminTimeoutCounterMax (raiseEvent ev s) = adminTimeoutCounterMax s"
  "connectTimeoutTimer (raiseEvent ev s) = connectTimeoutTimer s"
  "connectRedoTimer (raiseEvent ev s) = connectRedoTimer s"
  "lastTimerCall (raiseEvent ev s) = lastTimerCall s"
  "dnsServerStatus (raiseEvent ev s) = dnsServerStatus s"
  "lastMdnsEnabled (raiseEvent ev s) = lastMdnsEnabled s"
  "cbEventList (raiseEvent ev s) = cbEventList s"
  by (simp_all add: raiseEvent_eq)

lemma NetworkEvent_fields [simp]:
  "networkMode (NetworkEvent ev s) = networkMode s"
  "adminEnabled (NetworkEvent ev s) = adminEnabled s"
  "forceDisconnection (NetworkEvent ev s) = forceDisconnection s"
  "adminTimeoutCounter (NetworkEvent ev s) = adminTimeoutCounter s"
  "adminTimeoutCounterMax (NetworkEvent ev s) = adminTimeoutCounterMax s"
  "connectTimeoutTimer (NetworkEvent ev s) = connectTimeoutTimer s"
  "connectRedoTimer (NetworkEvent ev s) = connectRedoTimer s"
  "lastTimerCall (NetworkEvent ev s) = lastTimerCall s"
  "dnsServerStatus (NetworkEvent ev s) = dnsServerStatus s"
  "lastMdnsEnabled (NetworkEvent ev s) = lastMdnsEnabled s"
  "cbEventList (NetworkEvent ev s) = cbEventList s"
  by (cases ev; simp add: NetworkEvent_def Let_def)+

section \<open>Connectivity test\<close>

text \<open>
  C2, as amended: \<open>isConnected()\<close> is true exactly when the first octet of the local
  address of the WiFi station or of Ethernet is not zero, whatever the other octets are.
\<close>

theorem isConnected_first_octet:
  "isConnected (IPAddress a b c d) (IPAddress a' b' c' d') \<longleftrightarrow> a \<noteq> 0 \<or> a' \<noteq> 0"
  by (simp add: isConnected_def)

theorem isConnected_first_octet_witness:
  "isConnected (IPAddress 192 168 1 5) (IPAddress 0 0 0 0)
   \<and> \<not> isConnected (IPAddress 0 168 1 5) (IPAddress 0 0 0 0)"
  using isConnected_first_octet [of 192 168 1 5 0 0 0 0]
    isConnected_first_octet [of 0 168 1 5 0 0 0 0]
  by simp

text \<open>
  C2 as stated fails: the address 0.0.0.1 is not the zero address, and \<open>isConnected()\<close>
  is false when the station reports it and Ethernet reports 0.0.0.0.
\<close>

theorem isConnected_nonzero_address_counterexample:
  "\<not> (isConnected (IPAddress 0 0 0 1) INADDR_NONE
        \<longleftrightarrow> (IPAddress 0 0 0 1 \<noteq> INADDR_NONE \<or> INADDR_NONE \<noteq> INADDR_NONE))"
  by (simp add: isConnected_def INADDR_NONE_def)

section \<open>Mode arbiter\<close>

lemma loop_mode_networkMode:
  "networkMode (loop_mode P env s) = (if ethConnected s then Ethernet else WiFi)"
  by (simp add: loop_mode_def)

lemma loop_networkMode:
  "networkMode (loop P env s) = (if ethConnected s then Ethernet else WiFi)"
  by (simp add: loop_def loop_mode_networkMode)

lemma loop_ethConnected [simp]: "ethConnected (loop P env s) = ethConnected s"
  by (simp add: loop_def)

lemma run_append: "run P (xs @ ys) s = run P ys (run P xs s)"
  by (induction xs arbitrary: s) simp_all

text \<open>
  C1: for every sequence of raw link events and ticks, a tick that the object enters with
  the wired link flag \<open>_ethConnected\<close> set leaves \<open>_networkMode\<close> at Ethernet, not at
  WiFi, and leaves the flag set.
\<close>

theorem wired_link_forces_Ethernet:
  "ethConnected (run P inputs s) \<Longrightarrow>
     networkMode (run P (inputs @ [Tick env]) s) = Ethernet
     \<and> networkMode (run P (inputs @ [Tick env]) s) \<noteq> WiFi
     \<and> ethConnected (run P (inputs @ [Tick env]) s)"
  by (simp add: run_append loop_networkMode)

theorem wired_link_forces_Ethernet_witness:
  "ethConnected (run sample_platform [RawEvent ARDUINO_EVENT_ETH_CONNECTED] sample_state)
   \<and> networkMode
        (run sample_platform
           ([RawEvent ARDUINO_EVENT_ETH_CONNECTED]
            @ [Tick (sample_env 5 INADDR_NONE INADDR_NONE sample_config)]) sample_state)
       = Ethernet"
proof -
  have h: "ethConnected (run sample_platform [RawEvent ARDUINO_EVENT_ETH_CONNECTED] sample_state)"
    by (simp add: NetworkEvent_def raiseEvent_eq)
  from wired_link_forces_Ethernet [OF h] h show ?thesis by blast
qed

section \<open>Station configuration and subscription with invalid input\<close>

lemma calls_since_emits [simp]: "calls_since s (emits cs s) = cs"
  by (simp add: calls_since_def)

lemma setHostname_calls:
  "\<forall>c \<in> set (calls_since s (setHostname P env s)). \<not> is_station_connect c \<and> \<not> is_address_config c"
  by (simp add: calls_since_def setHostname_def setupMode_def Let_def
      is_station_connect_def is_address_config_def)

text \<open>With a configured SSID, on the other hand, a station connect is attempted.\<close>

lemma applyConfig_connects:
  "WiFi_Ssid (config env) \<noteq> [] \<Longrightarrow>
     \<exists>c \<in> set (calls_since s (applyConfig P env s)). is_station_connect c"
  by (simp add: applyConfig_def calls_since_def setHostname_def setupMode_def setStaticIp_def Let_def
      is_station_connect_def)

text \<open>
  C8: with an empty configured SSID, \<open>applyConfig\<close> does what \<open>setHostname\<close> does and
  returns: it calls neither \<open>WiFi.begin\<close> nor \<open>WiFi.config\<close> or \<open>ETH.config\<close>, and
  it returns normally, as the total function it is, with no error value. \<open>onEvent\<close> with an
  empty callback returns false and leaves the object, and so the subscription list, as it
  was.
\<close>

theorem applyConfig_empty_ssid:
  "(WiFi_Ssid (config env) = [] \<longrightarrow>
      applyConfig P env s = setHostname P env s
      \<and> (\<forall>c \<in> set (calls_since s (applyConfig P env s)).
            \<not> is_station_connect c \<and> \<not> is_address_config c))
   \<and> onEvent None ev s = (False, s)"
  using setHostname_calls [of s P env]
  by (simp add: applyConfig_def onEvent_def)

theorem applyConfig_empty_ssid_witness:
  "(let env = sample_env 0 INADDR_NONE INADDR_NONE (sample_config\<lparr>WiFi_Ssid := []\<rparr>);
        s = sample_state\<lparr>networkMode := WiFi\<rparr>
    in WiFi_Ssid (config env) = []
       \<and> applyConfig sample_platform env s = setHostname sample_platform env s
       \<and> list_all (\<lambda>c. \<not> is_station_connect c \<and> \<not> is_address_config c)
             (calls_since s (applyConfig sample_platform env s))
       \<and> onEvent None NETWORK_CONNECTED s = (False, s))"
  using applyConfig_empty_ssid
    [of "sample_env 0 INADDR_NONE INADDR_NONE (sample_config\<lparr>WiFi_Ssid := []\<rparr>)"
      sample_platform "sample_state\<lparr>networkMode := WiFi\<rparr>" NETWORK_CONNECTED]
  by (simp add: Let_def list_all_iff sample_env_def)

section \<open>Admin session\<close>

lemma loop_mode_adminEnabled:
  "adminEnabled (loop_mode P env s) = (adminEnabled s \<or> (\<not> ethConnected s \<and> networkMode s \<noteq> WiFi))"
  by (simp add: loop_mode_def)

lemma loop_admin_offline:
  "adminEnabled s \<Longrightarrow> \<not> isConnected (WiFi_localIP_1 env) (ETH_localIP_1 env) \<Longrightarrow>
     adminEnabled (loop_admin P env s) \<and> adminTimeoutCounter (loop_admin P env s) = 0"
  by (simp add: loop_admin_def Let_def)

lemma loop_offline:
  "adminEnabled s \<Longrightarrow> \<not> isConnected (WiFi_localIP_1 env) (ETH_localIP_1 env) \<Longrightarrow>
     adminEnabled (loop P env s) \<and> adminTimeoutCounter (loop P env s) = 0"
  by (simp add: loop_def loop_admin_offline loop_mode_adminEnabled)

lemma run_offline_adminEnabled:
  "adminEnabled s \<Longrightarrow> \<forall>env. Tick env \<in> set inputs \<longrightarrow> offline env \<Longrightarrow>
     adminEnabled (run P inputs s)"
proof (induction inputs arbitrary: s)
  case Nil
  then show ?case by simp
next
  case (Cons i inputs)
  have "adminEnabled (step P i s)"
  proof (cases i)
    case (RawEvent ev)
    with Cons.prems show ?thesis by simp
  next
    case (Tick env)
    with Cons.prems have "offline env" by simp
    with Cons.prems(1) Tick show ?thesis by (simp add: loop_offline offline_def)
  qed
  with Cons show ?case by simp
qed

text \<open>
  C4: over any sequence of raw events and ticks whose ticks are all offline, an enabled
  admin session stays enabled, and every such tick leaves \<open>_adminTimeoutCounter\<close> at 0;
  this holds for every value of \<open>_adminTimeoutCounterMax\<close>, so for every time-out above
  zero.
\<close>

theorem admin_session_never_expires_offline:
  assumes "adminEnabled s"
    and "\<forall>e. Tick e \<in> set inputs \<longrightarrow> offline e"
    and "offline env"
  shows "adminEnabled (run P (inputs @ [Tick env]) s)
         \<and> adminTimeoutCounter (run P (inputs @ [Tick env]) s) = 0"
proof -
  have "adminEnabled (run P inputs s)"
    using assms(1,2) by (rule run_offline_adminEnabled)
  with assms(3) show ?thesis
    by (simp add: run_append loop_offline offline_def)
qed

theorem admin_session_never_expires_offline_witness:
  "(let s = sample_state\<lparr>networkMode := WiFi, adminTimeoutCounter := 59,
                          adminTimeoutCounterMax := 60\<rparr>;
        e1 = sample_env 2000 INADDR_NONE INADDR_NONE sample_config;
        e2 = sample_env 4000 INADDR_NONE INADDR_NONE sample_config;
        inputs = [Tick e1, RawEvent ARDUINO_EVENT_WIFI_STA_DISCONNECTED]
    in adminEnabled s \<and> 0 < adminTimeoutCounterMax s \<and> offline e1 \<and> offline e2
       \<and> adminEnabled (run sample_platform (inputs @ [Tick e2]) s)
       \<and> adminTimeoutCounter (run sample_platform (inputs @ [Tick e2]) s) = 0)"
proof -
  define s where "s = sample_state\<lparr>networkMode := WiFi, adminTimeoutCounter := 59,
                          adminTimeoutCounterMax := 60\<rparr>"
  define e1 where "e1 = sample_env 2000 INADDR_NONE INADDR_NONE sample_config"
  define e2 where "e2 = sample_env 4000 INADDR_NONE INADDR_NONE sample_config"
  have a: "adminEnabled s" and m: "0 < adminTimeoutCounterMax s"
    by (simp_all add: s_def sample_state_def)
  have o1: "offline e1" and o2: "offline e2"
    by (simp_all add: e1_def e2_def offline_def sample_env_def isConnected_def INADDR_NONE_def)
  have all: "\<forall>e. Tick e \<in> set [Tick e1, RawEvent ARDUINO_EVENT_WIFI_STA_DISCONNECTED]
               \<longrightarrow> offline e"
    using o1 by simp
  from admin_session_never_expires_offline [OF a all o2, of sample_platform] a m o1 o2
  show ?thesis
    unfolding Let_def s_def [symmetric] e1_def [symmetric] e2_def [symmetric] by blast
qed

lemma loop_mode_zero_timeout:
  assumes "adminEnabled s \<and> adminTimeoutCounter s = 0 \<and> adminTimeoutCounterMax s = 0"
    and "WiFi_ApTimeout (config env) = 0"
  shows "adminEnabled (loop_mode P env s) \<and> adminTimeoutCounter (loop_mode P env s) = 0
         \<and> adminTimeoutCounterMax (loop_mode P env s) = 0"
  using assms by (simp add: loop_mode_def)

lemma loop_timer_zero_timeout:
  assumes "adminEnabled s \<and> adminTimeoutCounter s = 0 \<and> adminTimeoutCounterMax s = 0"
  shows "adminEnabled (loop_timer env s) \<and> adminTimeoutCounter (loop_timer env s) = 0
         \<and> adminTimeoutCounterMax (loop_timer env s) = 0"
  using assms by (simp add: loop_timer_def)

lemma loop_admin_zero_timeout:
  assumes "adminEnabled s \<and> adminTimeoutCounter s = 0 \<and> adminTimeoutCounterMax s = 0"
  shows "adminEnabled (loop_admin P env s) \<and> adminTimeoutCounter (loop_admin P env s) = 0
         \<and> adminTimeoutCounterMax (loop_admin P env s) = 0"
  using assms by (simp add: loop_admin_def Let_def)

lemma loop_zero_timeout:
  assumes "adminEnabled s" "adminTimeoutCounter s = 0" "adminTimeoutCounterMax s = 0"
    and "WiFi_ApTimeout (config env) = 0"
  shows "adminEnabled (loop P env s) \<and> adminTimeoutCounter (loop P env s) = 0
         \<and> adminTimeoutCounterMax (loop P env s) = 0"
proof -
  have "adminEnabled (loop_mode P env s) \<and> adminTimeoutCounter (loop_mode P env s) = 0
         \<and> adminTimeoutCounterMax (loop_mode P env s) = 0"
    using assms by (intro loop_mode_zero_timeout) simp_all
  then have "adminEnabled (loop_timer env (loop_mode P env s))
         \<and> adminTimeoutCounter (loop_timer env (loop_mode P env s)) = 0
         \<and> adminTimeoutCounterMax (loop_timer env (loop_mode P env s)) = 0"
    by (rule loop_timer_zero_timeout)
  then have "adminEnabled (loop_admin P env (loop_timer env (loop_mode P env s)))
         \<and> adminTimeoutCounter (loop_admin P env (loop_timer env (loop_mode P env s))) = 0
         \<and> adminTimeoutCounterMax (loop_admin P env (loop_timer env (loop_mode P env s))) = 0"
    by (rule loop_admin_zero_timeout)
  then show ?thesis by (simp add: loop_def)
qed

text \<open>
  C9: when the configured time-out is zero at every tick, an admin session armed with a
  time-out of zero (enabled, \<open>_adminTimeoutCounter\<close> = 0 = \<open>_adminTimeoutCounterMax\<close>)
  stays enabled over every sequence of raw events and ticks, whatever the connectivity,
  changes of mode included, and its counter stays at 0.
\<close>

theorem zero_timeout_never_disables:
  assumes "adminEnabled s" "adminTimeoutCounter s = 0" "adminTimeoutCounterMax s = 0"
    and "\<forall>env. Tick env \<in> set inputs \<longrightarrow> WiFi_ApTimeout (config env) = 0"
  shows "adminEnabled (run P inputs s) \<and> adminTimeoutCounter (run P inputs s) = 0
         \<and> adminTimeoutCounterMax (run P inputs s) = 0"
  using assms
proof (induction inputs arbitrary: s)
  case Nil
  then show ?case by simp
next
  case (Cons i inputs)
  have "adminEnabled (step P i s) \<and> adminTimeoutCounter (step P i s) = 0
         \<and> adminTimeoutCounterMax (step P i s) = 0"
  proof (cases i)
    case (RawEvent ev)
    with Cons.prems show ?thesis by simp
  next
    case (Tick env)
    with Cons.prems show ?thesis by (simp add: loop_zero_timeout)
  qed
  with Cons show ?case by simp
qed

theorem zero_timeout_never_disables_witness:
  "(let cfg = sample_config\<lparr>WiFi_ApTimeout := 0\<rparr>;
        inputs =
          [Tick (sample_env 2000 (IPAddress 192 168 1 50) INADDR_NONE cfg),
           RawEvent ARDUINO_EVENT_ETH_CONNECTED,
           Tick (sample_env 4000 (IPAddress 192 168 1 50) INADDR_NONE cfg)]
    in adminEnabled sample_state \<and> adminTimeoutCounter sample_state = 0
       \<and> adminTimeoutCounterMax sample_state = 0
       \<and> adminEnabled (run sample_platform inputs sample_state)
       \<and> adminTimeoutCounter (run sample_platform inputs sample_state) = 0
       \<and> adminTimeoutCounterMax (run sample_platform inputs sample_state) = 0)"
proof -
  define cfg where "cfg = sample_config\<lparr>WiFi_ApTimeout := 0\<rparr>"
  define inputs where "inputs =
          [Tick (sample_env 2000 (IPAddress 192 168 1 50) INADDR_NONE cfg),
           RawEvent ARDUINO_EVENT_ETH_CONNECTED,
           Tick (sample_env 4000 (IPAddress 192 168 1 50) INADDR_NONE cfg)]"
  have s: "adminEnabled sample_state" "adminTimeoutCounter sample_state = 0"
    "adminTimeoutCounterMax sample_state = 0"
    by (simp_all add: sample_state_def)
  have z: "\<forall>env. Tick env \<in> set inputs \<longrightarrow> WiFi_ApTimeout (config env) = 0"
    by (auto simp: inputs_def sample_env_def cfg_def)
  from zero_timeout_never_disables [OF s z, of sample_platform] s
  show ?thesis
    unfolding Let_def cfg_def [symmetric] inputs_def [symmetric] by blast
qed

lemma ticks_simps [simp]:
  "ticks P [] s = s"
  "ticks P (env # envs) s = ticks P envs (loop P env s)"
  by (simp_all add: ticks_def)

lemma ticks_append: "ticks P (xs @ ys) s = ticks P ys (ticks P xs s)"
  by (simp add: ticks_def run_append)

lemma loop_settled [simp]: "settled (loop P env s)"
  by (simp add: settled_def loop_networkMode)

lemma loop_mode_settled:
  "settled s \<Longrightarrow> loop_mode P env s = s"
  by (simp add: loop_mode_def settled_def split: if_splits)

lemma loop_timer_adminTimeoutCounter:
  "adminTimeoutCounter (loop_timer env s) =
     (if timer_due env s \<and> adminEnabled s \<and> adminTimeoutCounterMax s > 0
      then adminTimeoutCounter s + 1 else adminTimeoutCounter s)"
  by (simp add: loop_timer_def timer_due_def)

lemma loop_timer_lastTimerCall:
  "lastTimerCall (loop_timer env s) = (if timer_due env s then millis_2 env else lastTimerCall s)"
  by (simp add: loop_timer_def timer_due_def)

lemma loop_lastTimerCall:
  "lastTimerCall (loop P env s) = (if timer_due env s then millis_2 env else lastTimerCall s)"
  by (simp add: loop_def loop_timer_lastTimerCall timer_due_def)

lemma loop_admin_online:
  assumes "isConnected (WiFi_localIP_1 env) (ETH_localIP_1 env)"
  shows "adminEnabled (loop_admin P env s)
           = (adminEnabled s \<and> \<not> adminTimeoutCounter s > adminTimeoutCounterMax s)"
    and "adminTimeoutCounter (loop_admin P env s) = adminTimeoutCounter s"
  using assms by (simp_all add: loop_admin_def Let_def)

lemma loop_admin_disabled: "\<not> adminEnabled s \<Longrightarrow> loop_admin P env s = s"
  by (simp add: loop_admin_def)

lemma loop_online:
  assumes "settled s" and "isConnected (WiFi_localIP_1 env) (ETH_localIP_1 env)"
  shows "adminTimeoutCounter (loop P env s) =
           (if timer_due env s \<and> adminEnabled s \<and> adminTimeoutCounterMax s > 0
            then adminTimeoutCounter s + 1 else adminTimeoutCounter s)"
    and "adminEnabled (loop P env s) =
           (adminEnabled s \<and> \<not> adminTimeoutCounter (loop P env s) > adminTimeoutCounterMax s)"
    and "adminTimeoutCounterMax (loop P env s) = adminTimeoutCounterMax s"
  using assms
  by (simp_all add: loop_def loop_mode_settled loop_admin_online loop_timer_adminTimeoutCounter)

lemma loop_disabled:
  "settled s \<Longrightarrow> \<not> adminEnabled s \<Longrightarrow> \<not> adminEnabled (loop P env s)"
  by (simp add: loop_def loop_mode_settled loop_admin_disabled)

lemma ticks_stay_disabled:
  "settled s \<Longrightarrow> \<not> adminEnabled s \<Longrightarrow> \<not> adminEnabled (ticks P envs s)"
proof (induction envs arbitrary: s)
  case Nil
  then show ?case by simp
next
  case (Cons env envs)
  from Cons.prems have "\<not> adminEnabled (loop P env s)" by (rule loop_disabled)
  then show ?case using Cons.IH [of "loop P env s"] by simp
qed

lemma ticks_settled: "settled s \<Longrightarrow> settled (ticks P envs s)"
  by (induction envs arbitrary: s) simp_all

lemma unat_succ_below:
  fixes c m :: "32 word"
  assumes "c \<le> m" "m \<noteq> - 1"
  shows "unat (c + 1) = Suc (unat c)"
proof -
  have "c \<noteq> - 1" using assms by (metis word_order.extremum_unique)
  then have "c + 1 \<noteq> 0" by (metis add.commute add_eq_0_iff2 add.right_neutral eq_neg_iff_add_eq_0)
  then show ?thesis by (metis unatSuc add.commute)
qed

lemma admin_countdown:
  assumes "settled s" "adminEnabled s"
    and "adminTimeoutCounter s \<le> adminTimeoutCounterMax s"
    and "0 < adminTimeoutCounterMax s" "adminTimeoutCounterMax s \<noteq> - 1"
    and "\<forall>env \<in> set envs. isConnected (WiFi_localIP_1 env) (ETH_localIP_1 env)"
  shows "adminEnabled (ticks P envs s)
          \<longleftrightarrow> unat (adminTimeoutCounter s) + elapsed_seconds P envs s
                \<le> unat (adminTimeoutCounterMax s)"
  using assms
proof (induction envs arbitrary: s)
  case Nil
  then show ?case by (simp add: word_le_nat_alt)
next
  case (Cons env envs)
  let ?s' = "loop P env s"
  let ?f = "if timer_due env s then 1 else 0 :: nat"
  from Cons.prems have conn: "isConnected (WiFi_localIP_1 env) (ETH_localIP_1 env)" by simp
  note L = loop_online [OF Cons.prems(1) conn, of P]
  have cnt: "unat (adminTimeoutCounter ?s') = unat (adminTimeoutCounter s) + ?f"
    using Cons.prems(2-5) by (simp add: L(1) unat_succ_below)
  show ?case
  proof (cases "unat (adminTimeoutCounter s) + ?f \<le> unat (adminTimeoutCounterMax s)")
    case True
    then have le: "adminTimeoutCounter ?s' \<le> adminTimeoutCounterMax ?s'"
      by (simp add: word_le_nat_alt cnt L(3))
    then have en: "adminEnabled ?s'"
      using Cons.prems(2) by (simp add: L(2) L(3) not_less)
    have "adminEnabled (ticks P envs ?s')
          \<longleftrightarrow> unat (adminTimeoutCounter ?s') + elapsed_seconds P envs ?s'
                \<le> unat (adminTimeoutCounterMax ?s')"
      using Cons.prems le en by (intro Cons.IH) (simp_all add: L(3))
    then show ?thesis by (simp add: cnt L(3) add.assoc)
  next
    case False
    then have "adminTimeoutCounter ?s' > adminTimeoutCounterMax s"
      by (simp add: word_less_nat_alt cnt)
    then have "\<not> adminEnabled ?s'" by (simp add: L(2))
    then have "\<not> adminEnabled (ticks P envs ?s')"
      by (intro ticks_stay_disabled) simp_all
    with False show ?thesis by simp
  qed
qed

lemma times_60_not_max: "(x :: 32 word) * 60 \<noteq> - 1"
proof
  assume "x * 60 = - 1"
  moreover have "even (x * 60)" by simp
  ultimately have "even (- 1 :: 32 word)" by simp
  then show False by simp
qed

text \<open>
  C5, as amended: take an admin session just armed with a time-out above zero (enabled,
  counter 0, \<open>_adminTimeoutCounterMax\<close> = \<open>ApTimeout * 60\<close>) in a settled mode, and any run
  of online ticks. The session is enabled after the run exactly when at most
  \<open>_adminTimeoutCounterMax\<close> seconds were counted in it: it is disabled by the tick that
  counts the second after the time-out, not by the one that counts the time-out itself.
  Once disabled it stays disabled over all later ticks; only \<open>enableAdminMode\<close> sets the
  flag again.
\<close>

theorem admin_session_expires_after_timeout:
  assumes "adminEnabled s" and "adminTimeoutCounter s = 0"
    and "adminTimeoutCounterMax s = WiFi_ApTimeout cfg * 60"
    and "adminTimeoutCounterMax s \<noteq> 0"
    and "settled s"
    and "\<forall>env \<in> set envs. online env"
  shows "(adminEnabled (ticks P envs s)
           \<longleftrightarrow> elapsed_seconds P envs s \<le> unat (adminTimeoutCounterMax s))
         \<and> (\<not> adminEnabled (ticks P envs s) \<longrightarrow> \<not> adminEnabled (ticks P (envs @ later) s))"
proof
  have "adminEnabled (ticks P envs s)
          \<longleftrightarrow> unat (adminTimeoutCounter s) + elapsed_seconds P envs s
                \<le> unat (adminTimeoutCounterMax s)"
    using assms by (intro admin_countdown) (simp_all add: times_60_not_max online_def word_neq_0_conv)
  then show "adminEnabled (ticks P envs s)
           \<longleftrightarrow> elapsed_seconds P envs s \<le> unat (adminTimeoutCounterMax s)"
    using assms(2) by simp
next
  show "\<not> adminEnabled (ticks P envs s) \<longrightarrow> \<not> adminEnabled (ticks P (envs @ later) s)"
    using assms(5) by (simp add: ticks_append ticks_stay_disabled ticks_settled)
qed

lemma elapsed_regular:
  "lastTimerCall s = of_nat (1001 * a) \<Longrightarrow>
     elapsed_seconds P (map (\<lambda>k. sample_env (of_nat (1001 * k)) w e c) [Suc a..<Suc a + n]) s = n"
proof (induction n arbitrary: a s)
  case 0
  then show ?case by simp
next
  case (Suc n)
  let ?env = "sample_env (of_nat (1001 * Suc a)) w e c"
  have "(of_nat (1001 * Suc a) :: 32 word) - of_nat (1001 * a) = 1001"
    by simp
  then have due: "timer_due ?env s"
    by (simp add: timer_due_def sample_env_def Suc.prems)
  have last: "lastTimerCall (loop P ?env s) = of_nat (1001 * Suc a)"
    using due by (simp add: loop_lastTimerCall) (simp add: sample_env_def)
  have split: "[Suc a..<Suc a + Suc n] = Suc a # [Suc (Suc a)..<Suc (Suc a) + n]"
    by (simp add: upt_conv_Cons)
  show ?case
    using Suc.IH [OF last] due by (simp only: split list.map elapsed_seconds.simps) simp
qed

lemma elapsed_second_ticks:
  "lastTimerCall s = 0 \<Longrightarrow> elapsed_seconds P (second_ticks ip n) s = n"
  using elapsed_regular [of s 0 P _ _ _ n] by (simp add: second_ticks_def)

lemma armed_state_fields:
  "adminEnabled armed_state" "adminTimeoutCounter armed_state = 0"
  "adminTimeoutCounterMax armed_state = 60" "settled armed_state" "lastTimerCall armed_state = 0"
  by (simp_all add: armed_state_def settled_def sample_state_def sample_env_def sample_config_def)

lemma online_ticks_online: "\<forall>env \<in> set (online_ticks n). online env"
  by (simp add: online_ticks_def second_ticks_def online_def sample_env_def isConnected_def)

lemma elapsed_online_ticks:
  "lastTimerCall s = 0 \<Longrightarrow> elapsed_seconds P (online_ticks n) s = n"
  by (simp add: online_ticks_def elapsed_second_ticks)

text \<open>
  C5 as stated fails: with a time-out of 60 seconds, after exactly 60 counted seconds of
  continuous connectivity the session is still enabled.
\<close>

theorem admin_session_enabled_after_timeout_counterexample:
  "adminEnabled armed_state
   \<and> adminTimeoutCounter armed_state = 0
   \<and> adminTimeoutCounterMax armed_state = 60
   \<and> list_all online (online_ticks 60)
   \<and> elapsed_seconds sample_platform (online_ticks 60) armed_state = 60
   \<and> adminEnabled (ticks sample_platform (online_ticks 60) armed_state)"
proof -
  have "adminEnabled (ticks sample_platform (online_ticks 60) armed_state)
          \<longleftrightarrow> unat (adminTimeoutCounter armed_state)
                + elapsed_seconds sample_platform (online_ticks 60) armed_state
                \<le> unat (adminTimeoutCounterMax armed_state)"
    using online_ticks_online [of 60]
    by (intro admin_countdown) (simp_all add: armed_state_fields online_def)
  then show ?thesis
    using online_ticks_online [of 60]
    by (simp add: armed_state_fields elapsed_online_ticks list_all_iff)
qed

theorem admin_session_expires_after_timeout_witness:
  "adminEnabled armed_state
   \<and> adminTimeoutCounter armed_state = 0
   \<and> adminTimeoutCounterMax armed_state = WiFi_ApTimeout sample_config * 60
   \<and> adminTimeoutCounterMax armed_state = 60
   \<and> settled armed_state
   \<and> list_all online (online_ticks 61)
   \<and> elapsed_seconds sample_platform (online_ticks 61) armed_state = 61
   \<and> \<not> adminEnabled (ticks sample_platform (online_ticks 61) armed_state)
   \<and> \<not> adminEnabled (ticks sample_platform (online_ticks 61 @ online_ticks 5) armed_state)"
proof -
  have m: "adminTimeoutCounterMax armed_state = WiFi_ApTimeout sample_config * 60"
    by (simp add: armed_state_fields sample_config_def)
  have nz: "adminTimeoutCounterMax armed_state \<noteq> 0"
    by (simp add: armed_state_fields)
  from admin_session_expires_after_timeout
    [OF armed_state_fields(1,2) m nz armed_state_fields(4) online_ticks_online [of 61],
      of sample_platform "online_ticks 5"]
  show ?thesis
    using online_ticks_online [of 61]
    by (simp add: armed_state_fields elapsed_online_ticks list_all_iff m [symmetric])
qed

section \<open>Suppression of the station search\<close>

lemma radio_mode_append:
  "radio_mode (xs @ ys) = (case radio_mode ys of Some m \<Rightarrow> Some m | None \<Rightarrow> radio_mode xs)"
  by (induction xs) (auto split: option.splits)

lemma count_append [simp]:
  "hostname_applications (xs @ ys) = hostname_applications xs + hostname_applications ys"
  "station_connects (xs @ ys) = station_connects xs + station_connects ys"
  "address_configs (xs @ ys) = address_configs xs + address_configs ys"
  by (simp_all add: hostname_applications_def station_connects_def address_configs_def)

lemma count_WiFi_mode [simp]:
  "hostname_applications [WiFi_mode m] = 0"
  "station_connects [WiFi_mode m] = 0"
  "address_configs [WiFi_mode m] = 0"
  by (simp_all add: hostname_applications_def station_connects_def address_configs_def
      is_WiFi_hostname_def is_station_connect_def is_address_config_def)

lemma handleMDNS_obs [simp]:
  "radio_mode (trace (handleMDNS P env s)) = radio_mode (trace s)"
  "hostname_applications (trace (handleMDNS P env s)) = hostname_applications (trace s)"
  "station_connects (trace (handleMDNS P env s)) = station_connects (trace s)"
  "address_configs (trace (handleMDNS P env s)) = address_configs (trace s)"
  by (simp_all add: handleMDNS_def Let_def radio_mode_append
      hostname_applications_def station_connects_def address_configs_def
      is_WiFi_hostname_def is_station_connect_def is_address_config_def)

lemma loop_dns_obs [simp]:
  "radio_mode (trace (loop_dns s)) = radio_mode (trace s)"
  "hostname_applications (trace (loop_dns s)) = hostname_applications (trace s)"
  "station_connects (trace (loop_dns s)) = station_connects (trace s)"
  "address_configs (trace (loop_dns s)) = address_configs (trace s)"
  by (simp_all add: loop_dns_def radio_mode_append
      hostname_applications_def station_connects_def address_configs_def
      is_WiFi_hostname_def is_station_connect_def is_address_config_def)

lemma applyConfig_WiFi_obs:
  assumes "networkMode s = WiFi" "adminEnabled s"
  shows "radio_mode (trace (applyConfig P env s)) = Some WIFI_AP_STA"
    and "hostname_applications (trace (applyConfig P env s)) = Suc (hostname_applications (trace s))"
    and "station_connects (trace (applyConfig P env s))
          = station_connects (trace s) + (if WiFi_Ssid (config env) = [] then 0 else 1)"
    and "address_configs (trace (applyConfig P env s))
          = address_configs (trace s) + (if WiFi_Ssid (config env) = [] then 0 else 1)"
  using assms
  by (simp_all add: applyConfig_def setHostname_def setupMode_def setStaticIp_def Let_def
      radio_mode_append
      hostname_applications_def station_connects_def address_configs_def
      is_WiFi_hostname_def is_station_connect_def is_address_config_def)

lemma loop_admin_offline_fields:
  fixes P :: platform and s :: NetworkSettingsClass
  assumes en: "adminEnabled s" and wifi: "networkMode s = WiFi" and off: "offline env"
  defines "force \<equiv> connectTimeoutTimer s > WIFI_RECONNECT_TIMEOUT P \<and> \<not> forceDisconnection s"
  defines "r \<equiv> if force then 0 else connectRedoTimer s"
  defines "unforce \<equiv> r > WIFI_RECONNECT_REDO_TIMEOUT P \<and> (forceDisconnection s \<or> force)"
  shows "adminEnabled (loop_admin P env s)"
    and "connectTimeoutTimer (loop_admin P env s) = (if unforce then 0 else connectTimeoutTimer s)"
    and "connectRedoTimer (loop_admin P env s) = r"
    and "forceDisconnection (loop_admin P env s) = ((forceDisconnection s \<or> force) \<and> \<not> unforce)"
    and "radio_mode (trace (loop_admin P env s))
          = (if unforce then Some WIFI_AP_STA else if force then Some WIFI_AP
             else radio_mode (trace s))"
    and "hostname_applications (trace (loop_admin P env s))
          = hostname_applications (trace s) + (if unforce then 1 else 0)"
    and "station_connects (trace (loop_admin P env s))
          = station_connects (trace s)
            + (if unforce \<and> WiFi_Ssid (config env) \<noteq> [] then 1 else 0)"
    and "address_configs (trace (loop_admin P env s))
          = address_configs (trace s)
            + (if unforce \<and> WiFi_Ssid (config env) \<noteq> [] then 1 else 0)"
proof -
  define s1 where "s1 = s\<lparr>adminTimeoutCounter := 0\<rparr>"
  define s3 where "s3 = (if force
                    then (emits [WiFi_mode WIFI_AP] s1)
                           \<lparr>connectRedoTimer := 0, forceDisconnection := True\<rparr>
                    else s1)"
  have eq: "loop_admin P env s =
      (if unforce
       then (applyConfig P env (emits [WiFi_mode WIFI_AP_STA] s3))
              \<lparr>connectTimeoutTimer := 0, forceDisconnection := False\<rparr>
       else s3)"
    using en off
    by (auto simp add: loop_admin_def Let_def offline_def s1_def s3_def unforce_def r_def force_def)
  have s3f: "adminEnabled s3" "networkMode s3 = WiFi" "connectTimeoutTimer s3 = connectTimeoutTimer s"
    "connectRedoTimer s3 = r" "forceDisconnection s3 = (forceDisconnection s \<or> force)"
    "radio_mode (trace s3) = (if force then Some WIFI_AP else radio_mode (trace s))"
    "hostname_applications (trace s3) = hostname_applications (trace s)"
    "station_connects (trace s3) = station_connects (trace s)"
    "address_configs (trace s3) = address_configs (trace s)"
    using en wifi
    by (simp_all add: s3_def s1_def r_def radio_mode_append)
  have ap: "adminEnabled (emits [WiFi_mode WIFI_AP_STA] s3)"
    "networkMode (emits [WiFi_mode WIFI_AP_STA] s3) = WiFi"
    using s3f by simp_all
  note A = applyConfig_WiFi_obs [OF ap(2) ap(1), of P env]
  show "adminEnabled (loop_admin P env s)"
    by (simp add: eq s3f)
  show "connectTimeoutTimer (loop_admin P env s) = (if unforce then 0 else connectTimeoutTimer s)"
    by (simp add: eq s3f)
  show "connectRedoTimer (loop_admin P env s) = r"
    by (simp add: eq s3f)
  show "forceDisconnection (loop_admin P env s) = ((forceDisconnection s \<or> force) \<and> \<not> unforce)"
    by (simp add: eq s3f)
  show "radio_mode (trace (loop_admin P env s))
          = (if unforce then Some WIFI_AP_STA else if force then Some WIFI_AP
             else radio_mode (trace s))"
    by (simp add: eq s3f A)
  show "hostname_applications (trace (loop_admin P env s))
          = hostname_applications (trace s) + (if unforce then 1 else 0)"
    by (simp add: eq s3f A)
  show "station_connects (trace (loop_admin P env s))
          = station_connects (trace s)
            + (if unforce \<and> WiFi_Ssid (config env) \<noteq> [] then 1 else 0)"
    by (simp add: eq s3f A)
  show "address_configs (trace (loop_admin P env s))
          = address_configs (trace s)
            + (if unforce \<and> WiFi_Ssid (config env) \<noteq> [] then 1 else 0)"
    by (simp add: eq s3f A)
qed

lemma loop_settled_eq:
  "settled s \<Longrightarrow> loop P env s = handleMDNS P env (loop_dns (loop_admin P env (loop_timer env s)))"
  by (simp add: loop_def loop_mode_settled)

lemma loop_timer_timers:
  "connectTimeoutTimer (loop_timer env s)
     = (if timer_due env s then connectTimeoutTimer s + 1 else connectTimeoutTimer s)"
  "connectRedoTimer (loop_timer env s)
     = (if timer_due env s then connectRedoTimer s + 1 else connectRedoTimer s)"
  by (simp_all add: loop_timer_def timer_due_def Let_def)

lemma unat_succ_small:
  fixes x :: "32 word"
  assumes "Suc (unat x) < 2 ^ 32"
  shows "unat (x + 1) = Suc (unat x)"
  using assms by (simp add: unat_word_ariths)

lemma phase_step:
  fixes P :: platform and s :: NetworkSettingsClass
  assumes ph: "search_phase P c s" and off: "offline env" and per: "backoff_period P < 2 ^ 32"
  defines "f \<equiv> (if timer_due env s then 1 else 0 :: nat)"
  shows "search_phase P ((c + f) mod backoff_period P) (loop P env s)"
    and "radio_mode (trace (loop P env s))
          = (if c + f = backoff_period P then Some WIFI_AP_STA
             else if c = unat (WIFI_RECONNECT_TIMEOUT P) \<and> f = 1 then Some WIFI_AP
             else radio_mode (trace s))"
    and "hostname_applications (trace (loop P env s))
          = hostname_applications (trace s) + (c + f) div backoff_period P"
    and "WiFi_Ssid (config env) \<noteq> [] \<Longrightarrow>
          station_connects (trace (loop P env s))
          = station_connects (trace s) + (c + f) div backoff_period P"
    and "WiFi_Ssid (config env) \<noteq> [] \<Longrightarrow>
          address_configs (trace (loop P env s))
          = address_configs (trace s) + (c + f) div backoff_period P"
proof -
  define T where "T = unat (WIFI_RECONNECT_TIMEOUT P)"
  define R where "R = unat (WIFI_RECONNECT_REDO_TIMEOUT P)"
  define s0 where "s0 = loop_timer env s"
  define N where "N = T + R + 2"
  have p: "backoff_period P = N"
    by (simp add: backoff_period_def T_def R_def N_def)
  from ph have en: "adminEnabled s" and wifi: "networkMode s = WiFi" and eth: "\<not> ethConnected s"
    and c: "c < N" and t: "unat (connectTimeoutTimer s) = c"
    and fd: "forceDisconnection s \<longleftrightarrow> T < c"
    and rd: "T < c \<Longrightarrow> unat (connectRedoTimer s) = c - Suc T"
    and radio: "T < c \<Longrightarrow> radio_mode (trace s) = Some WIFI_AP"
    by (simp_all add: search_phase_def p T_def)
  have f01: "f = 0 \<or> f = 1" by (simp add: f_def)
  have small: "N < 2 ^ 32" using per p by simp
  have N: "N = T + R + 2" by (rule N_def)
  have set: "settled s" using wifi eth by (simp add: settled_def)
  have en0: "adminEnabled s0" and wifi0: "networkMode s0 = WiFi"
    and fd0: "forceDisconnection s0 \<longleftrightarrow> T < c" and tr0: "trace s0 = trace s"
    using en wifi fd by (simp_all add: s0_def)
  have t0: "unat (connectTimeoutTimer s0) = c + f"
  proof (cases "timer_due env s")
    case True
    have "Suc (unat (connectTimeoutTimer s)) < 2 ^ 32" using t c small by simp
    then show ?thesis using True t by (simp add: s0_def loop_timer_timers f_def unat_succ_small)
  next
    case False
    then show ?thesis using t by (simp add: s0_def loop_timer_timers f_def)
  qed
  have r0: "unat (connectRedoTimer s0) = c - Suc T + f" if "T < c"
  proof (cases "timer_due env s")
    case True
    have "Suc (unat (connectRedoTimer s)) < 2 ^ 32" using rd [OF that] c small by simp
    then show ?thesis using True rd [OF that] by (simp add: s0_def loop_timer_timers f_def unat_succ_small)
  next
    case False
    then show ?thesis using rd [OF that] by (simp add: s0_def loop_timer_timers f_def)
  qed
  define force where "force \<longleftrightarrow>
    connectTimeoutTimer s0 > WIFI_RECONNECT_TIMEOUT P \<and> \<not> forceDisconnection s0"
  define r where "r = (if force then 0 else connectRedoTimer s0)"
  define unforce where "unforce \<longleftrightarrow>
    r > WIFI_RECONNECT_REDO_TIMEOUT P \<and> (forceDisconnection s0 \<or> force)"
  have force_iff: "force \<longleftrightarrow> c = T \<and> f = 1"
    using f01 by (auto simp: force_def word_less_nat_alt t0 fd0 T_def [symmetric])
  have unforce_iff: "unforce \<longleftrightarrow> c + f = N"
  proof (cases "T < c")
    case True
    then have "\<not> force" by (simp add: force_iff)
    then have "unat r = c - Suc T + f" using r0 [OF True] by (simp add: r_def)
    then show ?thesis
      using True c f01 by (auto simp: unforce_def word_less_nat_alt fd0 R_def [symmetric] N)
  next
    case False
    have "\<not> unforce"
    proof (cases force)
      case True
      then show ?thesis by (simp add: unforce_def r_def)
    next
      case no: False
      then show ?thesis using False by (simp add: unforce_def fd0)
    qed
    then show ?thesis using False f01 by (auto simp: N)
  qed
  note L = loop_admin_offline_fields [OF en0 wifi0 off, of P,
      folded force_def, folded r_def, folded unforce_def]
  note E = loop_settled_eq [OF set, of P env, folded s0_def]
  define c' where "c' = (c + f) mod N"
  define d where "d = (c + f) div N"
  have cases: "(c + f = N \<and> c' = 0 \<and> d = 1) \<or> (c + f < N \<and> c' = c + f \<and> d = 0)"
  proof (cases "c + f = N")
    case True
    then show ?thesis by (simp add: c'_def d_def N)
  next
    case False
    then have "c + f < N" using c f01 by auto
    then show ?thesis by (simp add: c'_def d_def)
  qed
  have new_t: "unat (connectTimeoutTimer (loop P env s)) = c'"
    using cases by (auto simp: E L(2) unforce_iff t0)
  have new_fd: "forceDisconnection (loop P env s) \<longleftrightarrow> T < c'"
    using cases f01 by (auto simp: E L(4) unforce_iff force_iff fd0 N)
  have new_r: "unat (connectRedoTimer (loop P env s)) = c' - Suc T" if "T < c'"
  proof (cases force)
    case True
    then show ?thesis using cases by (auto simp: E L(3) r_def force_iff N)
  next
    case False
    with that f01 cases have "T < c" by (auto simp: force_iff N)
    then show ?thesis using that False r0 cases by (auto simp: E L(3) r_def)
  qed
  have radio_eq: "radio_mode (trace (loop P env s))
      = (if c + f = N then Some WIFI_AP_STA
         else if c = T \<and> f = 1 then Some WIFI_AP
         else radio_mode (trace s))"
    by (simp add: E L(5) unforce_iff force_iff tr0)
  have new_radio: "radio_mode (trace (loop P env s)) = Some WIFI_AP" if "T < c'"
  proof (cases "c = T \<and> f = 1")
    case True
    then show ?thesis using radio_eq by (simp add: N)
  next
    case False
    with that f01 cases have "T < c" and "c + f \<noteq> N" by (auto simp: N)
    then show ?thesis using radio_eq radio False by simp
  qed
  have c'_less: "c' < N" using cases c by (auto simp: N)
  show "search_phase P ((c + f) mod backoff_period P) (loop P env s)"
    unfolding search_phase_def p T_def [symmetric] c'_def [symmetric]
    using new_t new_fd new_r new_radio L(1) wifi eth c'_less
    by (simp add: E s0_def)
  show "radio_mode (trace (loop P env s))
          = (if c + f = backoff_period P then Some WIFI_AP_STA
             else if c = unat (WIFI_RECONNECT_TIMEOUT P) \<and> f = 1 then Some WIFI_AP
             else radio_mode (trace s))"
    unfolding p T_def [symmetric] by (rule radio_eq)
  show "hostname_applications (trace (loop P env s))
          = hostname_applications (trace s) + (c + f) div backoff_period P"
    unfolding p d_def [symmetric]
    using cases by (auto simp: E L(6) unforce_iff tr0)
  show "station_connects (trace (loop P env s))
          = station_connects (trace s) + (c + f) div backoff_period P"
    if "WiFi_Ssid (config env) \<noteq> []"
    unfolding p d_def [symmetric]
    using that cases by (auto simp: E L(7) unforce_iff tr0)
  show "address_configs (trace (loop P env s))
          = address_configs (trace s) + (c + f) div backoff_period P"
    if "WiFi_Ssid (config env) \<noteq> []"
    unfolding p d_def [symmetric]
    using that cases by (auto simp: E L(8) unforce_iff tr0)
qed


lemma radio_mode_invocations [simp]: "radio_mode (invocations ev entries) = None"
  by (induction entries) (simp_all add: invocations_def)

lemma count_invocations [simp]:
  "hostname_applications (invocations ev entries) = 0"
  "station_connects (invocations ev entries) = 0"
  "address_configs (invocations ev entries) = 0"
  by (induction entries)
    (simp_all add: invocations_def hostname_applications_def station_connects_def
      address_configs_def is_WiFi_hostname_def is_station_connect_def is_address_config_def)

lemma raiseEvent_obs [simp]:
  "radio_mode (trace (raiseEvent ev s)) = radio_mode (trace s)"
  "hostname_applications (trace (raiseEvent ev s)) = hostname_applications (trace s)"
  "station_connects (trace (raiseEvent ev s)) = station_connects (trace s)"
  "address_configs (trace (raiseEvent ev s)) = address_configs (trace s)"
  by (simp_all add: raiseEvent_eq radio_mode_append)

lemma count_Nil [simp]:
  "hostname_applications [] = 0" "station_connects [] = 0" "address_configs [] = 0"
  by (simp_all add: hostname_applications_def station_connects_def address_configs_def)

lemma count_Cons:
  "hostname_applications (c # cs) = (if is_WiFi_hostname c then 1 else 0) + hostname_applications cs"
  "station_connects (c # cs) = (if is_station_connect c then 1 else 0) + station_connects cs"
  "address_configs (c # cs) = (if is_address_config c then 1 else 0) + address_configs cs"
  by (simp_all add: hostname_applications_def station_connects_def address_configs_def)

lemma NetworkEvent_trace:
  "\<exists>cs. trace (NetworkEvent ev s) = trace s @ cs \<and> radio_mode cs = None
     \<and> hostname_applications cs = 0 \<and> address_configs cs = 0
     \<and> station_connects cs
         = (if ev = ARDUINO_EVENT_WIFI_STA_DISCONNECTED \<and> networkMode s = WiFi then 1 else 0)"
proof (cases ev)
  case ARDUINO_EVENT_WIFI_STA_DISCONNECTED
  show ?thesis
  proof (cases "networkMode s = WiFi")
    case True
    define cs where "cs = WiFi_disconnect True False # WiFi_begin
                            # invocations NETWORK_DISCONNECTED (cbEventList s)"
    have "trace (NetworkEvent ev s) = trace s @ cs"
      using True ARDUINO_EVENT_WIFI_STA_DISCONNECTED
      by (simp add: NetworkEvent_def raiseEvent_eq cs_def)
    moreover have "radio_mode cs = None" "hostname_applications cs = 0"
      "address_configs cs = 0" "station_connects cs = 1"
      by (simp_all add: cs_def count_Cons is_WiFi_hostname_def is_station_connect_def
          is_address_config_def)
    ultimately show ?thesis
      using True ARDUINO_EVENT_WIFI_STA_DISCONNECTED by auto
  next
    case False
    then show ?thesis
      using ARDUINO_EVENT_WIFI_STA_DISCONNECTED
      by (simp add: NetworkEvent_def)
  qed
qed (simp_all add: NetworkEvent_def Let_def raiseEvent_eq)

lemma NetworkEvent_obs:
  "radio_mode (trace (NetworkEvent ev s)) = radio_mode (trace s)"
  "hostname_applications (trace (NetworkEvent ev s)) = hostname_applications (trace s)"
  "address_configs (trace (NetworkEvent ev s)) = address_configs (trace s)"
  "station_connects (trace (NetworkEvent ev s))
     = station_connects (trace s)
       + (if ev = ARDUINO_EVENT_WIFI_STA_DISCONNECTED \<and> networkMode s = WiFi then 1 else 0)"
  using NetworkEvent_trace [of ev s] by (auto simp: radio_mode_append)

lemma NetworkEvent_ethConnected:
  "ev \<noteq> ARDUINO_EVENT_ETH_CONNECTED \<Longrightarrow> \<not> ethConnected s \<Longrightarrow> \<not> ethConnected (NetworkEvent ev s)"
  by (cases ev) (simp_all add: NetworkEvent_def Let_def)

lemma event_step:
  assumes "search_phase P c s" and "ev \<noteq> ARDUINO_EVENT_ETH_CONNECTED"
  shows "search_phase P c (NetworkEvent ev s)"
  using assms NetworkEvent_ethConnected [of ev s]
  by (simp add: search_phase_def NetworkEvent_obs)

lemma div_mod_carry:
  fixes a b N :: nat
  assumes "0 < N"
  shows "(a + b) div N = a div N + (a mod N + b) div N"
proof -
  have "a + b = (a mod N + b) + a div N * N" by simp
  then have "(a + b) div N = ((a mod N + b) + a div N * N) div N" by simp
  also have "\<dots> = (a mod N + b) div N + a div N" using assms by (simp only: div_mult_self1)
  finally show ?thesis by simp
qed

lemma station_losses_simps [simp]:
  "station_losses [] = 0"
  "station_losses (Tick env # inputs) = station_losses inputs"
  "station_losses (RawEvent ev # inputs)
     = (if ev = ARDUINO_EVENT_WIFI_STA_DISCONNECTED then 1 else 0) + station_losses inputs"
  by (simp_all add: station_losses_def)

lemma phase_run:
  assumes "search_phase P c s" and "\<forall>i \<in> set inputs. searching i"
    and "backoff_period P < 2 ^ 32"
  shows "search_phase P ((c + counted_seconds P inputs s) mod backoff_period P) (run P inputs s)
     \<and> radio_mode (trace (run P inputs s))
         = (if unat (WIFI_RECONNECT_TIMEOUT P)
                 < (c + counted_seconds P inputs s) mod backoff_period P
            then Some WIFI_AP
            else if c + counted_seconds P inputs s \<le> unat (WIFI_RECONNECT_TIMEOUT P)
            then radio_mode (trace s)
            else Some WIFI_AP_STA)
     \<and> hostname_applications (trace (run P inputs s))
         = hostname_applications (trace s)
           + (c + counted_seconds P inputs s) div backoff_period P
     \<and> ((\<forall>env. Tick env \<in> set inputs \<longrightarrow> WiFi_Ssid (config env) \<noteq> []) \<longrightarrow>
          address_configs (trace (run P inputs s))
           = address_configs (trace s) + (c + counted_seconds P inputs s) div backoff_period P
          \<and> station_connects (trace (run P inputs s))
             = station_connects (trace s)
               + (c + counted_seconds P inputs s) div backoff_period P
               + station_losses inputs)"
  using assms(1,2)
proof (induction inputs arbitrary: c s)
  case Nil
  then have "c < backoff_period P"
    and "unat (WIFI_RECONNECT_TIMEOUT P) < c \<longrightarrow> radio_mode (trace s) = Some WIFI_AP"
    by (simp_all add: search_phase_def)
  with Nil show ?case by auto
next
  case (Cons i inputs)
  define N where "N = backoff_period P"
  define T where "T = unat (WIFI_RECONNECT_TIMEOUT P)"
  have N0: "0 < N" and TN: "T < N" by (simp_all add: N_def T_def backoff_period_def)
  from Cons.prems have rest: "\<forall>i \<in> set inputs. searching i" by simp
  show ?case
  proof (cases i)
    case (RawEvent ev)
    with Cons.prems have ev: "ev \<noteq> ARDUINO_EVENT_ETH_CONNECTED" by (simp add: searching_def)
    from Cons.prems(1) have wifi: "networkMode s = WiFi" by (simp add: search_phase_def)
    note IH = Cons.IH [OF event_step [OF Cons.prems(1) ev] rest]
    show ?thesis
      using IH wifi by (simp add: RawEvent NetworkEvent_obs)
  next
    case (Tick env)
    define f where "f = (if timer_due env s then 1 else 0 :: nat)"
    define e where "e = counted_seconds P inputs (loop P env s)"
    define c1 where "c1 = (c + f) mod N"
    define \<rho> where "\<rho> = radio_mode (trace s)"
    define \<rho>1 where "\<rho>1 = radio_mode (trace (loop P env s))"
    define fin where "fin = run P inputs (loop P env s)"
    from Cons.prems Tick have off: "offline env" by (simp add: searching_def)
    from Cons.prems(1) have cN: "c < N" by (simp add: search_phase_def N_def)
    have f01: "f = 0 \<or> f = 1" by (simp add: f_def)
    note S = phase_step [OF Cons.prems(1) off assms(3), folded f_def N_def T_def]
    note IH = Cons.IH [OF S(1) [unfolded N_def] rest, folded e_def N_def T_def,
        folded c1_def \<rho>1_def fin_def]
    have cnt: "counted_seconds P (i # inputs) s = f + e" by (simp add: Tick f_def e_def)
    have fin: "run P (i # inputs) s = fin" by (simp add: Tick fin_def)
    have m: "(c1 + e) mod N = (c + (f + e)) mod N"
      by (simp add: c1_def mod_add_left_eq add.assoc)
    have d: "(c + f) div N + (c1 + e) div N = (c + (f + e)) div N"
      using div_mod_carry [OF N0, of "c + f" e] by (simp add: c1_def add.assoc)
    have cases: "(c + f = N \<and> c1 = 0) \<or> (c + f < N \<and> c1 = c + f)"
    proof (cases "c + f = N")
      case True
      then show ?thesis by (simp add: c1_def)
    next
      case False
      then have "c + f < N" using cN f01 by auto
      then show ?thesis by (simp add: c1_def)
    qed
    have \<rho>1: "\<rho>1 = (if c + f = N then Some WIFI_AP_STA
                  else if c = T \<and> f = 1 then Some WIFI_AP else \<rho>)"
      unfolding \<rho>1_def \<rho>_def by (rule S(2))
    have key: "(if c1 + e \<le> T then \<rho>1 else Some WIFI_AP_STA)
             = (if c + (f + e) \<le> T then \<rho> else Some WIFI_AP_STA)"
      using cases TN f01 by (auto simp: \<rho>1)
    have 1: "search_phase P ((c + (f + e)) mod N) fin"
      using IH m by simp
    have 2: "radio_mode (trace fin)
        = (if T < (c + (f + e)) mod N then Some WIFI_AP
           else if c + (f + e) \<le> T then \<rho> else Some WIFI_AP_STA)"
      using IH m key by simp
    have 3: "hostname_applications (trace fin)
        = hostname_applications (trace s) + (c + (f + e)) div N"
      using IH S(3) d by simp
    have 4: "address_configs (trace fin) = address_configs (trace s) + (c + (f + e)) div N
        \<and> station_connects (trace fin)
            = station_connects (trace s) + (c + (f + e)) div N + station_losses (i # inputs)"
      if "\<forall>x. Tick x \<in> set (i # inputs) \<longrightarrow> WiFi_Ssid (config x) \<noteq> []"
    proof -
      from that Tick have a: "WiFi_Ssid (config env) \<noteq> []"
        and b: "\<forall>x. Tick x \<in> set inputs \<longrightarrow> WiFi_Ssid (config x) \<noteq> []" by simp_all
      from IH b have "address_configs (trace fin)
            = address_configs (trace (loop P env s)) + (c1 + e) div N"
        and "station_connects (trace fin)
            = station_connects (trace (loop P env s)) + (c1 + e) div N + station_losses inputs"
        by blast+
      with S(4) [OF a] S(5) [OF a] d show ?thesis by (simp add: Tick)
    qed
    from 1 2 3 4 show ?thesis
      unfolding cnt fin N_def [symmetric] T_def [symmetric] \<rho>_def [symmetric] by blast
  qed
qed


lemma counted_seconds_ticks:
  "counted_seconds P (map Tick envs) s = elapsed_seconds P envs s"
  by (induction envs arbitrary: s) simp_all

lemma counted_seconds_append:
  "counted_seconds P (xs @ ys) s = counted_seconds P xs s + counted_seconds P ys (run P xs s)"
proof (induction xs arbitrary: s)
  case Nil
  show ?case by simp
next
  case (Cons i xs)
  show ?case by (cases i) (simp_all add: Cons.IH)
qed

lemma offline_ticks_offline: "\<forall>env \<in> set (offline_ticks n). offline env"
  by (simp add: offline_ticks_def second_ticks_def offline_def sample_env_def isConnected_def
      INADDR_NONE_def)

lemma offline_ticks_ssid: "\<forall>env \<in> set (offline_ticks n). WiFi_Ssid (config env) \<noteq> []"
  by (simp add: offline_ticks_def second_ticks_def sample_env_def sample_config_def)

lemma elapsed_offline_ticks:
  "lastTimerCall s = 0 \<Longrightarrow> elapsed_seconds P (offline_ticks n) s = n"
  by (simp add: offline_ticks_def elapsed_second_ticks)

lemma armed_state_search:
  "networkMode armed_state = WiFi" "\<not> ethConnected armed_state"
  "\<not> forceDisconnection armed_state" "connectTimeoutTimer armed_state = 0"
  "radio_mode (trace armed_state) = Some WIFI_AP_STA"
  "backoff_period sample_platform = 5"
  by (simp_all add: armed_state_def sample_state_def setupMode_def enableAdminMode_def
      emits_def backoff_period_def sample_platform_def)


lemma lastTimerCall_regular:
  "lastTimerCall s = of_nat (1001 * a) \<Longrightarrow>
     lastTimerCall
       (ticks P (map (\<lambda>k. sample_env (of_nat (1001 * k)) w e c) [Suc a..<Suc a + n]) s)
     = of_nat (1001 * (a + n))"
proof (induction n arbitrary: a s)
  case 0
  then show ?case by simp
next
  case (Suc n)
  let ?env = "sample_env (of_nat (1001 * Suc a)) w e c"
  have "(of_nat (1001 * Suc a) :: 32 word) - of_nat (1001 * a) = 1001"
    by simp
  then have due: "timer_due ?env s"
    by (simp add: timer_due_def sample_env_def Suc.prems)
  have last: "lastTimerCall (loop P ?env s) = of_nat (1001 * Suc a)"
    using due by (simp add: loop_lastTimerCall) (simp add: sample_env_def)
  have split: "[Suc a..<Suc a + Suc n] = Suc a # [Suc (Suc a)..<Suc (Suc a) + n]"
    by (simp add: upt_conv_Cons)
  show ?case
    using Suc.IH [OF last] by (simp only: split list.map ticks_simps) simp
qed

lemma NetworkEvent_wired_link:
  "ethConnected (NetworkEvent ARDUINO_EVENT_ETH_CONNECTED s)"
  "\<not> ethConnected (NetworkEvent ARDUINO_EVENT_ETH_DISCONNECTED s)"
  by (simp_all add: NetworkEvent_def Let_def)

lemma loop_admin_connected:
  assumes "adminEnabled s" and "isConnected (WiFi_localIP_2 env) (ETH_localIP_2 env)"
  shows "connectTimeoutTimer (loop_admin P env s) = 0"
    and "connectRedoTimer (loop_admin P env s) = 0"
    and "forceDisconnection (loop_admin P env s) = forceDisconnection s"
  using assms by (simp_all add: loop_admin_def Let_def)

lemma loop_connected:
  assumes "adminEnabled s" and "isConnected (WiFi_localIP_2 env) (ETH_localIP_2 env)"
  shows "connectTimeoutTimer (loop P env s) = 0"
    and "connectRedoTimer (loop P env s) = 0"
    and "forceDisconnection (loop P env s) = forceDisconnection s"
proof -
  have en: "adminEnabled (loop_timer env (loop_mode P env s))"
    using assms(1) by (simp add: loop_mode_adminEnabled)
  note L = loop_admin_connected [OF en assms(2), of P]
  show "connectTimeoutTimer (loop P env s) = 0"
    by (simp add: loop_def L)
  show "connectRedoTimer (loop P env s) = 0"
    by (simp add: loop_def L)
  show "forceDisconnection (loop P env s) = forceDisconnection s"
    by (simp add: loop_def L)
qed

lemma loop_mode_to_WiFi:
  assumes "\<not> ethConnected s" and "networkMode s \<noteq> WiFi"
  shows "radio_mode (trace (loop_mode P env s)) = Some WIFI_AP_STA"
proof -
  have eq: "loop_mode P env s
      = applyConfig P env (enableAdminMode P env (s\<lparr>networkMode := WiFi\<rparr>))"
    using assms by (simp add: loop_mode_def)
  show ?thesis
    unfolding eq by (rule applyConfig_WiFi_obs(1)) simp_all
qed

text \<open>An offline tick that counts a second, seen from the state the mode arbiter leaves.\<close>

lemma loop_offline_second:
  fixes P :: platform
  assumes en: "adminEnabled a" and wifi: "networkMode a = WiFi" and off: "offline env"
    and due: "timer_due env a" and a: "a = loop_mode P env s"
  defines "t \<equiv> connectTimeoutTimer a + 1"
  defines "force \<equiv> t > WIFI_RECONNECT_TIMEOUT P \<and> \<not> forceDisconnection a"
  defines "r \<equiv> if force then 0 else connectRedoTimer a + 1"
  defines "unforce \<equiv> r > WIFI_RECONNECT_REDO_TIMEOUT P \<and> (forceDisconnection a \<or> force)"
  shows "adminEnabled (loop P env s)"
    and "networkMode (loop P env s) = WiFi"
    and "connectTimeoutTimer (loop P env s) = (if unforce then 0 else t)"
    and "connectRedoTimer (loop P env s) = r"
    and "forceDisconnection (loop P env s) = ((forceDisconnection a \<or> force) \<and> \<not> unforce)"
    and "radio_mode (trace (loop P env s))
          = (if unforce then Some WIFI_AP_STA else if force then Some WIFI_AP
             else radio_mode (trace a))"
proof -
  define b where "b = loop_timer env a"
  have eq: "loop P env s = handleMDNS P env (loop_dns (loop_admin P env b))"
    by (simp add: loop_def a b_def)
  have bf: "adminEnabled b" "networkMode b = WiFi"
    using en wifi by (simp_all add: b_def)
  have bt: "connectTimeoutTimer b = t" "connectRedoTimer b = connectRedoTimer a + 1"
    "forceDisconnection b = forceDisconnection a" "trace b = trace a"
    using due by (simp_all add: b_def loop_timer_timers t_def)
  note L = loop_admin_offline_fields [OF bf off, of P, unfolded bt,
      folded force_def, folded r_def, folded unforce_def]
  show "adminEnabled (loop P env s)"
    by (simp add: eq L)
  show "networkMode (loop P env s) = WiFi"
    by (simp add: eq bf)
  show "connectTimeoutTimer (loop P env s) = (if unforce then 0 else t)"
    by (simp add: eq L)
  show "connectRedoTimer (loop P env s) = r"
    by (simp add: eq L)
  show "forceDisconnection (loop P env s) = ((forceDisconnection a \<or> force) \<and> \<not> unforce)"
    by (simp add: eq L)
  show "radio_mode (trace (loop P env s))
          = (if unforce then Some WIFI_AP_STA else if force then Some WIFI_AP
             else radio_mode (trace a))"
    by (simp add: eq L)
qed

lemma sample_platform_timeouts:
  "WIFI_RECONNECT_TIMEOUT sample_platform = 2"
  "WIFI_RECONNECT_REDO_TIMEOUT sample_platform = 1"
  by (simp_all add: sample_platform_def)

lemma offline_sample_env:
  "offline (sample_env t INADDR_NONE INADDR_NONE cfg)"
  by (simp add: offline_def sample_env_def isConnected_def INADDR_NONE_def)

lemma suppressed_before_wired:
  "search_phase sample_platform 3 (run sample_platform (map Tick (offline_ticks 3)) armed_state)"
  "lastTimerCall (run sample_platform (map Tick (offline_ticks 3)) armed_state) = 3003"
proof -
  have start: "search_phase sample_platform 0 armed_state"
    by (simp add: search_phase_def armed_state_fields armed_state_search)
  have all: "\<forall>i \<in> set (map Tick (offline_ticks 3)). searching i"
    using offline_ticks_offline [of 3] by (auto simp: searching_def)
  have per: "backoff_period sample_platform < 2 ^ 32"
    by (simp add: armed_state_search)
  have n: "counted_seconds sample_platform (map Tick (offline_ticks 3)) armed_state = 3"
    by (simp add: counted_seconds_ticks elapsed_offline_ticks armed_state_fields)
  from phase_run [OF start all per]
  show "search_phase sample_platform 3
          (run sample_platform (map Tick (offline_ticks 3)) armed_state)"
    by (simp add: n armed_state_search)
  have "lastTimerCall (ticks sample_platform (offline_ticks 3) armed_state)
          = of_nat (1001 * (0 + 3))"
    unfolding offline_ticks_def second_ticks_def
    using lastTimerCall_regular [of armed_state 0 sample_platform _ _ _ 3]
    by (simp add: armed_state_fields)
  then show "lastTimerCall (run sample_platform (map Tick (offline_ticks 3)) armed_state) = 3003"
    by (simp add: ticks_def)
qed

lemma link_lost_state_fields:
  "networkMode link_lost_state = Ethernet" "\<not> ethConnected link_lost_state"
  "forceDisconnection link_lost_state" "connectTimeoutTimer link_lost_state = 0"
  "connectRedoTimer link_lost_state = 0" "lastTimerCall link_lost_state = 4004"
proof -
  define s3 where "s3 = run sample_platform (map Tick (offline_ticks 3)) armed_state"
  define s4 where "s4 = NetworkEvent ARDUINO_EVENT_ETH_CONNECTED s3"
  define w where "w = sample_env 4004 INADDR_NONE (IPAddress 192 168 1 51) sample_config"
  define s5 where "s5 = loop sample_platform w s4"
  have eq: "link_lost_state = NetworkEvent ARDUINO_EVENT_ETH_DISCONNECTED s5"
    by (simp add: link_lost_state_def wired_history_def run_append s3_def s4_def s5_def w_def)
  have s3f: "adminEnabled s3" "forceDisconnection s3" "lastTimerCall s3 = 3003"
    using suppressed_before_wired
    by (simp_all add: s3_def search_phase_def sample_platform_timeouts)
  have s4f: "adminEnabled s4" "forceDisconnection s4" "lastTimerCall s4 = 3003" "ethConnected s4"
    using s3f by (simp_all add: s4_def NetworkEvent_wired_link)
  have con: "isConnected (WiFi_localIP_2 w) (ETH_localIP_2 w)"
    by (simp add: w_def sample_env_def isConnected_def INADDR_NONE_def)
  have due: "timer_due w s4"
    by (simp add: timer_due_def s4f w_def sample_env_def)
  note L = loop_connected [OF s4f(1) con, of sample_platform, folded s5_def]
  have s5f: "networkMode s5 = Ethernet" "forceDisconnection s5" "connectTimeoutTimer s5 = 0"
    "connectRedoTimer s5 = 0" "lastTimerCall s5 = 4004"
    using L s4f due
    by (simp_all add: s5_def loop_networkMode loop_lastTimerCall) (simp add: w_def sample_env_def)
  show "networkMode link_lost_state = Ethernet" by (simp add: eq s5f)
  show "\<not> ethConnected link_lost_state" by (simp add: eq NetworkEvent_wired_link)
  show "forceDisconnection link_lost_state" by (simp add: eq s5f)
  show "connectTimeoutTimer link_lost_state = 0" by (simp add: eq s5f)
  show "connectRedoTimer link_lost_state = 0" by (simp add: eq s5f)
  show "lastTimerCall link_lost_state = 4004" by (simp add: eq s5f)
qed

lemma seconds_offline_simps:
  "seconds_offline 1
     = loop sample_platform (sample_env 5005 INADDR_NONE INADDR_NONE sample_config) link_lost_state"
  "seconds_offline 2
     = loop sample_platform (sample_env 6006 INADDR_NONE INADDR_NONE sample_config)
         (seconds_offline 1)"
  "seconds_offline 3
     = run sample_platform [Tick (sample_env 7007 INADDR_NONE INADDR_NONE sample_config)]
         (seconds_offline 2)"
  "seconds_offline 4
     = run sample_platform
         [Tick (sample_env 7007 INADDR_NONE INADDR_NONE sample_config),
          Tick (sample_env 8008 INADDR_NONE INADDR_NONE sample_config)]
         (seconds_offline 2)"
  unfolding seconds_offline_def offline_seconds_5_to_8_def by simp_all

lemma seconds_offline_1:
  "adminEnabled (seconds_offline 1)" "networkMode (seconds_offline 1) = WiFi"
  "\<not> ethConnected (seconds_offline 1)" "forceDisconnection (seconds_offline 1)"
  "connectTimeoutTimer (seconds_offline 1) = 1" "connectRedoTimer (seconds_offline 1) = 1"
  "lastTimerCall (seconds_offline 1) = 5005"
  "radio_mode (trace (seconds_offline 1)) = Some WIFI_AP_STA"
proof -
  define env where "env = sample_env 5005 INADDR_NONE INADDR_NONE sample_config"
  define a where "a = loop_mode sample_platform env link_lost_state"
  have eq: "seconds_offline 1 = loop sample_platform env link_lost_state"
    unfolding env_def by (rule seconds_offline_simps)
  have af: "adminEnabled a" "networkMode a = WiFi" "forceDisconnection a"
    "connectTimeoutTimer a = 0" "connectRedoTimer a = 0" "lastTimerCall a = 4004"
    by (simp_all add: a_def link_lost_state_fields loop_mode_adminEnabled loop_mode_networkMode)
  have radio: "radio_mode (trace a) = Some WIFI_AP_STA"
    unfolding a_def by (rule loop_mode_to_WiFi) (simp_all add: link_lost_state_fields)
  have off: "offline env" by (simp add: env_def offline_sample_env)
  have due: "timer_due env a" by (simp add: timer_due_def af env_def sample_env_def)
  have due': "timer_due env link_lost_state"
    by (simp add: timer_due_def link_lost_state_fields env_def sample_env_def)
  note L = loop_offline_second [OF af(1,2) off due a_def, folded eq]
  show "adminEnabled (seconds_offline 1)" by (rule L)
  show "networkMode (seconds_offline 1) = WiFi" by (rule L)
  show "\<not> ethConnected (seconds_offline 1)"
    unfolding eq by (simp add: link_lost_state_fields)
  show "forceDisconnection (seconds_offline 1)"
    unfolding L by (simp add: af sample_platform_timeouts)
  show "connectTimeoutTimer (seconds_offline 1) = 1"
    unfolding L by (simp add: af sample_platform_timeouts)
  show "connectRedoTimer (seconds_offline 1) = 1"
    unfolding L by (simp add: af sample_platform_timeouts)
  show "lastTimerCall (seconds_offline 1) = 5005"
    unfolding eq using due' by (simp add: loop_lastTimerCall) (simp add: env_def sample_env_def)
  show "radio_mode (trace (seconds_offline 1)) = Some WIFI_AP_STA"
    unfolding L by (simp add: af radio sample_platform_timeouts)
qed

lemma seconds_offline_2:
  "adminEnabled (seconds_offline 2)" "networkMode (seconds_offline 2) = WiFi"
  "\<not> ethConnected (seconds_offline 2)" "\<not> forceDisconnection (seconds_offline 2)"
  "connectTimeoutTimer (seconds_offline 2) = 0"
  "lastTimerCall (seconds_offline 2) = 6006"
  "radio_mode (trace (seconds_offline 2)) = Some WIFI_AP_STA"
proof -
  define env where "env = sample_env 6006 INADDR_NONE INADDR_NONE sample_config"
  define s where "s = seconds_offline 1"
  have eq: "seconds_offline 2 = loop sample_platform env s"
    unfolding env_def s_def by (rule seconds_offline_simps)
  have sf: "adminEnabled s" "networkMode s = WiFi" "forceDisconnection s"
    "connectTimeoutTimer s = 1" "connectRedoTimer s = 1" "lastTimerCall s = 5005"
    "radio_mode (trace s) = Some WIFI_AP_STA" "\<not> ethConnected s"
    unfolding s_def by (rule seconds_offline_1)+
  have settled: "settled s"
    by (simp add: settled_def sf)
  have a: "s = loop_mode sample_platform env s"
    using settled by (simp add: loop_mode_settled)
  have off: "offline env" by (simp add: env_def offline_sample_env)
  have due: "timer_due env s" by (simp add: timer_due_def sf env_def sample_env_def)
  note L = loop_offline_second [OF sf(1,2) off due a, folded eq]
  show "adminEnabled (seconds_offline 2)" by (rule L)
  show "networkMode (seconds_offline 2) = WiFi" by (rule L)
  show "\<not> ethConnected (seconds_offline 2)" by (simp add: eq sf)
  show "\<not> forceDisconnection (seconds_offline 2)"
    by (simp add: L sf sample_platform_timeouts)
  show "connectTimeoutTimer (seconds_offline 2) = 0"
    by (simp add: L sf sample_platform_timeouts)
  show "lastTimerCall (seconds_offline 2) = 6006"
    using due by (simp add: eq loop_lastTimerCall) (simp add: env_def sample_env_def)
  show "radio_mode (trace (seconds_offline 2)) = Some WIFI_AP_STA"
    by (simp add: L sf sample_platform_timeouts)
qed

lemma seconds_offline_later:
  assumes "inputs = [Tick (sample_env 7007 INADDR_NONE INADDR_NONE sample_config)]
         \<or> inputs = [Tick (sample_env 7007 INADDR_NONE INADDR_NONE sample_config),
                     Tick (sample_env 8008 INADDR_NONE INADDR_NONE sample_config)]"
  shows "adminEnabled (run sample_platform inputs (seconds_offline 2))"
    and "networkMode (run sample_platform inputs (seconds_offline 2)) = WiFi"
    and "\<not> forceDisconnection (run sample_platform inputs (seconds_offline 2))"
    and "radio_mode (trace (run sample_platform inputs (seconds_offline 2))) = Some WIFI_AP_STA"
proof -
  define n where "n = counted_seconds sample_platform inputs (seconds_offline 2)"
  define fin where "fin = run sample_platform inputs (seconds_offline 2)"
  have start: "search_phase sample_platform 0 (seconds_offline 2)"
    by (simp add: search_phase_def seconds_offline_2 armed_state_search)
  have all: "\<forall>i \<in> set inputs. searching i"
    using assms by (auto simp: searching_def offline_sample_env)
  have per: "backoff_period sample_platform < 2 ^ 32"
    by (simp add: armed_state_search)
  have n: "n \<le> 2"
    using assms by (auto simp: n_def)
  then have m: "n mod 5 = n" by simp
  note R = phase_run [OF start all per, folded n_def fin_def]
  from R have "search_phase sample_platform n fin"
    by (simp add: armed_state_search m)
  then show "adminEnabled fin" "networkMode fin = WiFi" "\<not> forceDisconnection fin"
    using n by (simp_all add: search_phase_def sample_platform_timeouts)
  from R show "radio_mode (trace fin) = Some WIFI_AP_STA"
    using n by (simp add: armed_state_search m sample_platform_timeouts seconds_offline_2)
qed

lemma elapsed_offline_seconds_5_to_8:
  "elapsed_seconds sample_platform offline_seconds_5_to_8 link_lost_state = 4"
  by (simp add: offline_seconds_5_to_8_def loop_lastTimerCall timer_due_def
      link_lost_state_fields sample_env_def)


section \<open>Hostname\<close>

lemma c_str_no_NUL: "NUL \<notin> set (c_str buf)"
  by (auto simp: c_str_def dest: set_takeWhileD)

lemma c_str_prefix:
  "NUL \<notin> set w \<Longrightarrow> c_str (w @ NUL # rest) = w"
  by (induction w) (auto simp: c_str_def)

lemma c_str_snprintf: "c_str (snprintf buf (Suc n) out) = take n (c_str out)"
proof -
  have "NUL \<notin> set (take n (c_str out))"
    using c_str_no_NUL [of out] by (auto dest: in_set_takeD)
  then show ?thesis by (simp add: snprintf_def Let_def c_str_prefix)
qed

lemma length_char_array [simp]: "length (char_array n garbage) = n"
  by (simp add: char_array_def)

lemma unat_succ_byte:
  fixes pos :: "8 word"
  assumes "unat pos < 255"
  shows "unat (pos + 1) = Suc (unat pos)"
  using assms by (simp add: unat_word_ariths)

lemma sanitize_loop_spec:
  assumes "NUL \<notin> set w" and "unat pos + length w \<le> maxlen" and "maxlen \<le> 255"
    and "length res = Suc maxlen"
  shows "\<exists>res' pos'. sanitize_loop maxlen (w @ NUL # rest) res pos = (res', pos')
           \<and> unat pos' = unat pos + length (spec_keep_or_hyphen w)
           \<and> take (unat pos') res' = take (unat pos) res @ spec_keep_or_hyphen w
           \<and> length res' = Suc maxlen"
  using assms
proof (induction w arbitrary: res pos)
  case Nil
  then show ?case by (simp add: spec_keep_or_hyphen_def)
next
  case (Cons c w)
  from Cons.prems have c0: "c \<noteq> NUL" and w0: "NUL \<notin> set w" by auto
  from Cons.prems have lt: "unat pos < maxlen" by simp
  with Cons.prems have suc: "unat (pos + 1) = Suc (unat pos)"
    by (intro unat_succ_byte) simp
  have inb: "unat pos < length res" using lt Cons.prems by simp
  consider (alnum) "isalnum c" | (hyph) "\<not> isalnum c" "hyphenated c"
    | (drop) "\<not> isalnum c" "\<not> hyphenated c" by blast
  then show ?case
  proof cases
    case alnum
    have "\<exists>res' pos'. sanitize_loop maxlen (w @ NUL # rest) (res[unat pos := c]) (pos + 1) = (res', pos')
           \<and> unat pos' = unat (pos + 1) + length (spec_keep_or_hyphen w)
           \<and> take (unat pos') res' = take (unat (pos + 1)) (res[unat pos := c]) @ spec_keep_or_hyphen w
           \<and> length res' = Suc maxlen"
      using Cons.prems w0 lt by (intro Cons.IH) (simp_all add: suc)
    moreover have "take (Suc (unat pos)) (res[unat pos := c]) = take (unat pos) res @ [c]"
      using inb by (simp add: take_Suc_conv_app_nth)
    ultimately show ?thesis
      using alnum c0 lt by (simp add: suc spec_keep_or_hyphen_def)
  next
    case hyph
    have "\<exists>res' pos'. sanitize_loop maxlen (w @ NUL # rest) (res[unat pos := CHR ''-'']) (pos + 1) = (res', pos')
           \<and> unat pos' = unat (pos + 1) + length (spec_keep_or_hyphen w)
           \<and> take (unat pos') res' = take (unat (pos + 1)) (res[unat pos := CHR ''-'']) @ spec_keep_or_hyphen w
           \<and> length res' = Suc maxlen"
      using Cons.prems w0 lt by (intro Cons.IH) (simp_all add: suc)
    moreover have "take (Suc (unat pos)) (res[unat pos := CHR ''-'']) = take (unat pos) res @ [CHR ''-'']"
      using inb by (simp add: take_Suc_conv_app_nth)
    ultimately show ?thesis
      using hyph c0 lt by (simp add: suc spec_keep_or_hyphen_def hyphenated_def)
  next
    case drop
    have "\<exists>res' pos'. sanitize_loop maxlen (w @ NUL # rest) res pos = (res', pos')
           \<and> unat pos' = unat pos + length (spec_keep_or_hyphen w)
           \<and> take (unat pos') res' = take (unat pos) res @ spec_keep_or_hyphen w
           \<and> length res' = Suc maxlen"
      using Cons.prems w0 by (intro Cons.IH) simp_all
    then show ?thesis
      using drop c0 lt by (simp add: spec_keep_or_hyphen_def hyphenated_def)
  qed
qed


lemma unat_pred_byte:
  fixes pos :: "8 word"
  assumes "pos \<noteq> 0"
  shows "unat (pos - 1) = unat pos - 1"
  using assms by (simp add: unat_minus_one)

lemma strip_loop_spec:
  assumes "take (unat pos) res = x" and "unat pos < length res" and "res ! unat pos = NUL"
  shows "\<exists>res' pos'. strip_loop res pos = (res', pos')
           \<and> take (unat pos') res' = spec_strip_trailing x
           \<and> unat pos' < length res' \<and> res' ! unat pos' = NUL"
  using assms
proof (induction x arbitrary: res pos rule: rev_induct)
  case Nil
  then have "unat pos = 0" by auto
  then have "pos = 0" by (simp add: unat_eq_zero)
  with Nil show ?case
    by (simp add: strip_loop.simps [of res 0] spec_strip_trailing_def)
next
  case (snoc c xs)
  from snoc.prems have len: "unat pos = Suc (length xs)"
    by (metis length_append_singleton length_take min.absorb2 less_imp_le_nat)
  then have pos0: "pos \<noteq> 0" by auto
  then have gt: "pos > 0" by (simp add: word_neq_0_conv)
  have pred: "unat (pos - 1) = length xs"
    using unat_pred_byte [OF pos0] len by simp
  have "res ! length xs = (take (unat pos) res) ! length xs"
    using len by simp
  then have last: "res ! length xs = c"
    using snoc.prems(1) by simp
  have xs: "take (length xs) res = xs"
    using snoc.prems(1) len
    by (metis append_eq_conv_conj length_take min.absorb2 less_imp_le_nat snoc.prems(2) take_take
        less_Suc_eq_le order_refl)
  show ?case
  proof (cases "c = CHR ''-''")
    case True
    have "\<exists>res' pos'. strip_loop (res[length xs := NUL]) (pos - 1) = (res', pos')
           \<and> take (unat pos') res' = spec_strip_trailing xs
           \<and> unat pos' < length res' \<and> res' ! unat pos' = NUL"
      using snoc.prems(2) len xs by (intro snoc.IH) (simp_all add: pred)
    then show ?thesis
      using True gt last len
      by (simp add: strip_loop.simps [of res pos] spec_strip_trailing_def)
  next
    case False
    then show ?thesis
      using snoc.prems last len
      by (simp add: strip_loop.simps [of res pos] spec_strip_trailing_def)
  qed
qed

lemma isalnum_NUL [simp]: "\<not> isalnum NUL"
  by (simp add: isalnum_def NUL_def)

lemma hyphen_not_NUL [simp]: "CHR ''-'' \<noteq> NUL"
  by (simp add: NUL_def)

lemma set_spec_keep_or_hyphen:
  "c \<in> set (spec_keep_or_hyphen str) \<Longrightarrow> isalnum c \<or> c = CHR ''-''"
  by (auto simp: spec_keep_or_hyphen_def split: if_splits)

lemma set_spec_strip_trailing: "set (spec_strip_trailing str) \<subseteq> set str"
  using set_dropWhileD by (fastforce simp: spec_strip_trailing_def)

lemma set_spec_sanitize:
  "c \<in> set (spec_sanitize str) \<Longrightarrow> isalnum c \<or> c = CHR ''-''"
  using set_spec_strip_trailing set_spec_keep_or_hyphen by (fastforce simp: spec_sanitize_def)

lemma length_spec_keep_or_hyphen: "length (spec_keep_or_hyphen str) \<le> length str"
  by (induction str) (simp_all add: spec_keep_or_hyphen_def)

lemma length_spec_strip_trailing: "length (spec_strip_trailing str) \<le> length str"
  using length_dropWhile_le [of "\<lambda>c. c = CHR ''-''" "rev str"]
  by (simp add: spec_strip_trailing_def)

lemma length_spec_sanitize: "length (spec_sanitize str) \<le> length str"
  using length_spec_strip_trailing [of "spec_keep_or_hyphen str"] length_spec_keep_or_hyphen [of str]
  by (simp add: spec_sanitize_def)

lemma getHostname_eq:
  assumes "WIFI_MAX_HOSTNAME_STRLEN P \<le> 255"
  shows "getHostname P garbage cfg
         = spec_hostname (substituted P (WiFi_Hostname cfg)) (substituted P (APP_HOSTNAME P))"
proof -
  define maxlen where "maxlen = WIFI_MAX_HOSTNAME_STRLEN P"
  define w where "w = substituted P (WiFi_Hostname cfg)"
  define arr where "arr = char_array (Suc maxlen) garbage"
  define rest where "rest = drop (Suc (length w)) arr"
  have wlen: "length w \<le> maxlen" by (simp add: w_def substituted_def maxlen_def)
  have wnul: "NUL \<notin> set w"
    using c_str_no_NUL by (auto simp: w_def substituted_def dest: in_set_takeD)
  have prep: "snprintf arr (Suc maxlen) (format P (WiFi_Hostname cfg) (chipId P)) = w @ NUL # rest"
    by (simp add: snprintf_def Let_def w_def substituted_def maxlen_def rest_def)
  obtain res1 pos1 where
    l1: "sanitize_loop maxlen (w @ NUL # rest) arr 0 = (res1, pos1)"
    and p1: "unat pos1 = length (spec_keep_or_hyphen w)"
    and t1: "take (unat pos1) res1 = spec_keep_or_hyphen w"
    and n1: "length res1 = Suc maxlen"
    using sanitize_loop_spec [of w 0 maxlen arr rest] wnul wlen assms
    by (auto simp: maxlen_def arr_def)
  have b1: "unat pos1 < length res1"
    using p1 n1 wlen length_spec_keep_or_hyphen [of w] by simp
  define res2 where "res2 = res1[unat pos1 := NUL]"
  have t2: "take (unat pos1) res2 = spec_keep_or_hyphen w"
    and b2: "unat pos1 < length res2" and z2: "res2 ! unat pos1 = NUL"
    using t1 b1 by (simp_all add: res2_def)
  obtain res3 pos3 where
    l3: "strip_loop res2 pos1 = (res3, pos3)"
    and t3: "take (unat pos3) res3 = spec_sanitize w"
    and b3: "unat pos3 < length res3" and z3: "res3 ! unat pos3 = NUL"
    using strip_loop_spec [OF t2 b2 z2] by (auto simp: spec_sanitize_def)
  have "res3 = take (unat pos3) res3 @ res3 ! unat pos3 # drop (Suc (unat pos3)) res3"
    using b3 by (rule id_take_nth_drop)
  then have "res3 = spec_sanitize w @ NUL # drop (Suc (unat pos3)) res3"
    by (simp add: t3 z3)
  moreover have "NUL \<notin> set (spec_sanitize w)"
  proof
    assume "NUL \<in> set (spec_sanitize w)"
    then have "isalnum NUL \<or> NUL = CHR ''-''" by (rule set_spec_sanitize)
    then show False using hyphen_not_NUL by (simp del: hyphen_not_NUL)
  qed
  ultimately have c3: "c_str res3 = spec_sanitize w"
    by (metis c_str_prefix)
  have "getHostname P garbage cfg =
      (if strlen res3 = 0
       then c_str (snprintf res3 (Suc maxlen) (format P (APP_HOSTNAME P) (chipId P)))
       else c_str res3)"
    by (simp add: getHostname_def Let_def maxlen_def [symmetric] arr_def [symmetric] prep l1
        res2_def [symmetric] l3)
  then show ?thesis
    by (simp add: strlen_def c3 c_str_snprintf spec_hostname_def w_def substituted_def maxlen_def)
qed


lemma spec_sanitize_examples:
  "spec_sanitize ''My Router!!'' = ''My-Router''"
  "spec_sanitize ''abc_123'' = ''abc-123''"
  "spec_sanitize ''---'' = []"
  by (simp_all add: spec_sanitize_def spec_keep_or_hyphen_def spec_strip_trailing_def
      isalnum_def hyphenated_def)

lemma spec_sanitize_disallowed:
  assumes "\<forall>c \<in> set str. \<not> isalnum c"
  shows "spec_sanitize str = []"
proof -
  have "\<forall>c \<in> set (spec_keep_or_hyphen str). c = CHR ''-''"
    using assms by (auto simp: spec_keep_or_hyphen_def split: if_splits)
  then show ?thesis
    by (simp add: spec_sanitize_def spec_strip_trailing_def)
qed

lemma last_spec_strip_trailing:
  "spec_strip_trailing str \<noteq> [] \<Longrightarrow> last (spec_strip_trailing str) \<noteq> CHR ''-''"
  using hd_dropWhile [of "\<lambda>c. c = CHR ''-''" "rev str"]
  by (simp add: spec_strip_trailing_def last_rev)

lemma hostname_shape_spec_sanitize: "hostname_shape (spec_sanitize str)"
  using set_spec_sanitize [of _ str] last_spec_strip_trailing [of "spec_keep_or_hyphen str"]
  by (auto simp: hostname_shape_def spec_sanitize_def)

lemma length_substituted: "length (substituted P fmt) \<le> WIFI_MAX_HOSTNAME_STRLEN P"
  by (simp add: substituted_def)

text \<open>
  C3: for every hostname template, chip id and content of the stack, \<open>getHostname\<close>
  returns what the specification's rule gives on the template-substituted hostname:
  alphanumeric characters kept, the seven separators mapped to a hyphen each, all other
  characters dropped, trailing hyphens stripped, and the substituted default template when
  nothing is left. In particular a substituted hostname without an alphanumeric character
  gives the default, \<open>My Router!!\<close> gives \<open>My-Router\<close>, \<open>abc_123\<close> gives \<open>abc-123\<close> and
  \<open>---\<close> gives the default. The position \<open>pos\<close> is a \<open>uint8_t\<close>, so the length limit
  is taken to fit into it.
\<close>

theorem getHostname_sanitizes:
  assumes "WIFI_MAX_HOSTNAME_STRLEN P \<le> 255"
  shows "getHostname P garbage cfg
           = spec_hostname (substituted P (WiFi_Hostname cfg)) (substituted P (APP_HOSTNAME P))
    \<and> ((\<forall>c \<in> set (substituted P (WiFi_Hostname cfg)). \<not> isalnum c)
         \<longrightarrow> getHostname P garbage cfg = substituted P (APP_HOSTNAME P))
    \<and> (substituted P (WiFi_Hostname cfg) = ''My Router!!''
         \<longrightarrow> getHostname P garbage cfg = ''My-Router'')
    \<and> (substituted P (WiFi_Hostname cfg) = ''abc_123''
         \<longrightarrow> getHostname P garbage cfg = ''abc-123'')
    \<and> (substituted P (WiFi_Hostname cfg) = ''---''
         \<longrightarrow> getHostname P garbage cfg = substituted P (APP_HOSTNAME P))"
  using getHostname_eq [OF assms, of garbage cfg]
  by (auto simp: spec_hostname_def spec_sanitize_examples spec_sanitize_disallowed)


lemma substituted_sample:
  "substituted sample_platform ''My Router!!'' = ''My Router!!''"
  "substituted sample_platform ''abc_123'' = ''abc_123''"
  "substituted sample_platform ''---'' = ''---''"
  "substituted sample_platform ''@#$'' = ''@#$''"
  "substituted sample_platform ''OpenDTU'' = ''OpenDTU''"
  by (simp_all add: substituted_def sample_platform_def c_str_def NUL_def)

lemma sample_platform_maxlen: "WIFI_MAX_HOSTNAME_STRLEN sample_platform \<le> 255"
  by (simp add: sample_platform_def)

lemma sample_platform_default: "APP_HOSTNAME sample_platform = ''OpenDTU''"
  by (simp add: sample_platform_def)

theorem getHostname_sanitizes_witness:
  "WIFI_MAX_HOSTNAME_STRLEN sample_platform \<le> 255
   \<and> getHostname sample_platform ''stack bytes'' (sample_config\<lparr>WiFi_Hostname := ''My Router!!''\<rparr>)
       = ''My-Router''
   \<and> getHostname sample_platform ''stack bytes'' (sample_config\<lparr>WiFi_Hostname := ''abc_123''\<rparr>)
       = ''abc-123''
   \<and> getHostname sample_platform ''stack bytes'' (sample_config\<lparr>WiFi_Hostname := ''---''\<rparr>)
       = ''OpenDTU''
   \<and> getHostname sample_platform ''stack bytes'' (sample_config\<lparr>WiFi_Hostname := ''@#$''\<rparr>)
       = ''OpenDTU''"
proof -
  note W = getHostname_sanitizes [OF sample_platform_maxlen, of "''stack bytes''"]
  have a: "getHostname sample_platform ''stack bytes'' (sample_config\<lparr>WiFi_Hostname := ''My Router!!''\<rparr>)
       = ''My-Router''"
    using W [of "sample_config\<lparr>WiFi_Hostname := ''My Router!!''\<rparr>"]
    by (auto simp: substituted_sample)
  have b: "getHostname sample_platform ''stack bytes'' (sample_config\<lparr>WiFi_Hostname := ''abc_123''\<rparr>)
       = ''abc-123''"
    using W [of "sample_config\<lparr>WiFi_Hostname := ''abc_123''\<rparr>"]
    by (auto simp: substituted_sample)
  have c: "getHostname sample_platform ''stack bytes'' (sample_config\<lparr>WiFi_Hostname := ''---''\<rparr>)
       = ''OpenDTU''"
    using W [of "sample_config\<lparr>WiFi_Hostname := ''---''\<rparr>"]
    by (auto simp: substituted_sample sample_platform_default)
  have d: "getHostname sample_platform ''stack bytes'' (sample_config\<lparr>WiFi_Hostname := ''@#$''\<rparr>)
       = ''OpenDTU''"
    using W [of "sample_config\<lparr>WiFi_Hostname := ''@#$''\<rparr>"]
    by (auto simp: substituted_sample sample_platform_default isalnum_def)
  from a b c d sample_platform_maxlen show ?thesis by blast
qed



end
